theory Spec2Isabelle
  imports Main
begin

section \<open>Python values, exceptions and the runtime library\<close>

text \<open>
  Exceptions of the Python program. \<open>KeyboardInterrupt\<close> and \<open>SystemExit\<close> derive from
  \<open>BaseException\<close> only, so \<open>except Exception\<close> does not catch them. \<open>OtherError\<close>
  stands for every other \<open>Exception\<close> subclass (a \<open>psycopg2.Error\<close>, for instance);
  a \<open>json.JSONDecodeError\<close> is a \<open>ValueError\<close>.
\<close>

datatype pyexc =
    KeyError string
  | ValueError
  | TypeError
  | OverflowError
  | OtherError string
  | KeyboardInterrupt
  | SystemExit int

fun is_Exception :: "pyexc \<Rightarrow> bool" where
  "is_Exception KeyboardInterrupt = False"
| "is_Exception (SystemExit _) = False"
| "is_Exception _ = True"

type_synonym 'a res = "pyexc + 'a"

definition bind_res :: "'a res \<Rightarrow> ('a \<Rightarrow> 'b res) \<Rightarrow> 'b res" where
  "bind_res m f = (case m of Inl e \<Rightarrow> Inl e | Inr v \<Rightarrow> f v)"

text \<open>
  A Python float is a double: \<open>Finite m e\<close> is the value \<open>m * 2 ^ e\<close>. Values that
  reach the transformer are what the database driver hands over: \<open>None\<close>, booleans,
  integers, floats, strings, timestamps, and (for a JSONB column) lists and dicts with
  string keys. A dict is an association list in insertion order.
\<close>

datatype pyfloat = Finite int int | PosInf | NegInf | NaN

datatype pyval =
    PNone
  | PBool bool
  | PInt int
  | PFloat pyfloat
  | PStr string
  | PDatetime int
  | PList "pyval list"
  | PDict "(string \<times> pyval) list"

type_synonym pyrow = "(string \<times> pyval) list"

text \<open>
  The built-in and library functions the transformer calls (\<open>float\<close>, \<open>int\<close>, \<open>str\<close>,
  \<open>json.loads\<close>, \<open>json.dumps(_, default=str)\<close>) are not code of the repository: the
  model takes them as a parameter.
\<close>

record pyrt =
  py_float :: "pyval \<Rightarrow> pyfloat res"
  py_int :: "pyval \<Rightarrow> int res"
  py_str :: "pyval \<Rightarrow> string"
  json_loads :: "string \<Rightarrow> pyval res"
  json_dumps :: "pyval \<Rightarrow> string"

text \<open>Truth value of an object, as \<open>bool(val)\<close> and \<open>if val\<close> compute it.\<close>

fun truthy :: "pyval \<Rightarrow> bool" where
  "truthy PNone = False"
| "truthy (PBool b) = b"
| "truthy (PInt i) = (i \<noteq> 0)"
| "truthy (PFloat (Finite m e)) = (m \<noteq> 0)"
| "truthy (PFloat _) = True"
| "truthy (PStr s) = (s \<noteq> [])"
| "truthy (PDatetime _) = True"
| "truthy (PList xs) = (xs \<noteq> [])"
| "truthy (PDict kvs) = (kvs \<noteq> [])"

text \<open>
  \<open>str.lower\<close> on the ASCII letters. A string is a list of bytes here; no character
  outside ASCII lowers to a letter of \<open>true\<close>, \<open>1\<close> or \<open>yes\<close>, which is all
  \<open>safe_bool\<close> asks of it.
\<close>

definition lower_char :: "char \<Rightarrow> char" where
  "lower_char c =
     (case map_of (zip ''ABCDEFGHIJKLMNOPQRSTUVWXYZ'' ''abcdefghijklmnopqrstuvwxyz'') c of
        Some d \<Rightarrow> d
      | None \<Rightarrow> c)"

definition lower :: "string \<Rightarrow> string" where
  "lower s = map lower_char s"

text \<open>Dict access: \<open>d[k]\<close> raises \<open>KeyError\<close>, \<open>d.get(k)\<close> gives \<open>None\<close>.\<close>

definition idx :: "pyrow \<Rightarrow> string \<Rightarrow> pyval res" where
  "idx r k = (case map_of r k of Some v \<Rightarrow> Inr v | None \<Rightarrow> Inl (KeyError k))"

definition get :: "pyrow \<Rightarrow> string \<Rightarrow> pyval" where
  "get r k = (case map_of r k of Some v \<Rightarrow> v | None \<Rightarrow> PNone)"

text \<open>
  Python evaluates the elements of a tuple or dict display from left to right; the
  first one that raises aborts the display.
\<close>

fun eval_all :: "'a res list \<Rightarrow> 'a list res" where
  "eval_all [] = Inr []"
| "eval_all (m # ms) =
     (case m of
        Inl e \<Rightarrow> Inl e
      | Inr v \<Rightarrow> (case eval_all ms of Inl e \<Rightarrow> Inl e | Inr vs \<Rightarrow> Inr (v # vs)))"

fun eval_dict :: "(string \<times> pyval res) list \<Rightarrow> pyrow res" where
  "eval_dict [] = Inr []"
| "eval_dict ((k, m) # kms) =
     (case m of
        Inl e \<Rightarrow> Inl e
      | Inr v \<Rightarrow> (case eval_dict kms of Inl e \<Rightarrow> Inl e | Inr kvs \<Rightarrow> Inr ((k, v) # kvs)))"

section \<open>transform.py\<close>

fun safe_get :: "pyval \<Rightarrow> string \<Rightarrow> pyval" where
  "safe_get (PDict kvs) key = get kvs key"
| "safe_get _ key = PNone"

definition safe_bool :: "pyval \<Rightarrow> pyval res" where
  "safe_bool val =
     (case val of
        PNone \<Rightarrow> Inr PNone
      | PBool b \<Rightarrow> Inr (PBool b)
      | PStr s \<Rightarrow> Inr (PBool (lower s \<in> set [''true'', ''1'', ''yes'']))
      | _ \<Rightarrow> Inr (PBool (truthy val)))"

definition safe_numeric :: "pyrt \<Rightarrow> pyval \<Rightarrow> pyval res" where
  "safe_numeric B val =
     (if val = PNone then Inr PNone
      else (case py_float B val of
              Inr f \<Rightarrow> Inr (PFloat f)
            | Inl e \<Rightarrow> if e = ValueError \<or> e = TypeError then Inr PNone else Inl e))"

definition safe_int :: "pyrt \<Rightarrow> pyval \<Rightarrow> pyval res" where
  "safe_int B val =
     (if val = PNone then Inr PNone
      else (case py_int B val of
              Inr i \<Rightarrow> Inr (PInt i)
            | Inl e \<Rightarrow> if e = ValueError \<or> e = TypeError then Inr PNone else Inl e))"

text \<open>
  The first statement of both flatten functions: a dict is kept, a string is parsed
  (\<open>except Exception\<close> turns a failure into the empty dict), anything else becomes the
  empty dict.
\<close>

definition as_payload :: "pyrt \<Rightarrow> pyval \<Rightarrow> pyval res" where
  "as_payload B d =
     (case d of
        PDict kvs \<Rightarrow> Inr d
      | PStr s \<Rightarrow>
          (case json_loads B s of
             Inr v \<Rightarrow> Inr v
           | Inl e \<Rightarrow> if is_Exception e then Inr (PDict []) else Inl e)
      | _ \<Rightarrow> Inr (PDict []))"

definition flatten_input_data :: "pyrt \<Rightarrow> pyval \<Rightarrow> pyrow res" where
  "flatten_input_data B input_data0 =
     bind_res (as_payload B input_data0) (\<lambda>input_data.
       eval_dict
         [(''inp_value'', safe_numeric B (safe_get input_data ''value'')),
          (''inp_unit'', Inr (safe_get input_data ''unit'')),
          (''inp_start_year'', safe_int B (safe_get input_data ''start_year'')),
          (''inp_end_year'', safe_int B (safe_get input_data ''end_year'')),
          (''inp_input_type'', Inr (safe_get input_data ''input_type'')),
          (''inp_timeframe'', Inr (safe_get input_data ''timeframe'')),
          (''inp_dosing_type'', Inr (safe_get input_data ''dosing_type'')),
          (''inp_actuals_flag'', safe_bool (safe_get input_data ''actuals_flag'')),
          (''inp_curve_type'', Inr (safe_get input_data ''curve_type'')),
          (''inp_selected_output'', Inr (safe_get input_data ''selected_output'')),
          (''inp_pfs_flag'', safe_bool (safe_get input_data ''pfs_flag'')),
          (''inp_ppc_flag'', safe_bool (safe_get input_data ''ppc_flag'')),
          (''input_data_full_text'',
             Inr (if truthy input_data then PStr (json_dumps B input_data) else PNone))])"

definition flatten_event_data :: "pyrt \<Rightarrow> pyval \<Rightarrow> pyrow res" where
  "flatten_event_data B event_data0 =
     bind_res (as_payload B event_data0) (\<lambda>event_data.
       eval_dict
         [(''evt_year'', safe_int B (safe_get event_data ''year'')),
          (''evt_share_value'', safe_numeric B (safe_get event_data ''share_value'')),
          (''evt_entry_quarter'', Inr (safe_get event_data ''entry_quarter'')),
          (''evt_erosion_rate'', safe_numeric B (safe_get event_data ''erosion_rate'')),
          (''evt_launch_date'', Inr (safe_get event_data ''launch_date'')),
          (''evt_steady_state'', safe_numeric B (safe_get event_data ''steady_state'')),
          (''evt_sob_value'', safe_numeric B (safe_get event_data ''sob_value'')),
          (''event_data_full_text'',
             Inr (if truthy event_data then PStr (json_dumps B event_data) else PNone))])"

text \<open>
  The transform functions build one tuple per row in a \<open>for\<close> loop; a row that raises
  aborts the whole call. The body of each loop is the \<open>_row\<close> function.
\<close>

definition transform_scenarios_row :: "pyrow \<Rightarrow> pyval list res" where
  "transform_scenarios_row r =
     eval_all
       [idx r ''id'',
        idx r ''scenario_display_name'',
        idx r ''status'',
        idx r ''is_starter'',
        idx r ''currency'',
        idx r ''currency_code'',
        idx r ''scenario_start_year'',
        idx r ''scenario_end_year'',
        Inr (get r ''scenario_region_name''),
        Inr (get r ''scenario_country_name''),
        idx r ''created_at'',
        idx r ''created_by'',
        Inr (get r ''submitted_at''),
        Inr (get r ''submitted_by''),
        Inr (get r ''locked_at''),
        Inr (get r ''locked_by''),
        Inr (get r ''updated_at''),
        Inr (get r ''updated_by''),
        Inr (get r ''withdraw_at''),
        Inr (get r ''withdraw_by''),
        Inr (get r ''delete_at''),
        idx r ''model_id'',
        idx r ''model_display_name'',
        Inr (get r ''model_type''),
        Inr (get r ''model_publish_level''),
        idx r ''therapeutic_area_name'',
        idx r ''disease_area_name'',
        Inr (get r ''loe_enabled''),
        Inr (get r ''model_region_name''),
        Inr (get r ''model_country_name''),
        Inr (get r ''forecast_cycle_name''),
        Inr (get r ''forecast_cycle_start''),
        Inr (get r ''forecast_cycle_end''),
        Inr (get r ''horizon_start_limit''),
        Inr (get r ''horizon_end_limit''),
        Inr (get r ''starter_created'')]"

definition transform_scenarios :: "pyrow list \<Rightarrow> pyval list list res" where
  "transform_scenarios rows = eval_all (map transform_scenarios_row rows)"

definition transform_node_data_row :: "pyrt \<Rightarrow> pyrow \<Rightarrow> pyval list res" where
  "transform_node_data_row B r =
     bind_res (idx r ''input_data'') (\<lambda>input_data.
     bind_res (flatten_input_data B input_data) (\<lambda>flat.
     bind_res (idx r ''version_ended_at'') (\<lambda>ended.
     let is_current = (ended = PNone) in
     eval_all
       [idx r ''id'',
        idx r ''scenario_id'',
        idx r ''model_node_id'',
        Inr (get r ''node_display_name''),
        Inr (get r ''node_type''),
        Inr (get r ''tab_name''),
        Inr (get r ''tab_level''),
        Inr (get r ''group_name''),
        Inr (get r ''group_type''),
        Inr (get r ''node_seq''),
        Inr (get r ''flow''),
        idx r ''version_started_at'',
        Inr (get r ''version_ended_at''),
        Inr (PBool is_current),
        Inr (get r ''edited_by''),
        Inr (get r ''input_hash''),
        Inr (get r ''input_validated''),
        (if truthy (get r ''input_validation_message'')
         then bind_res (idx r ''validation_message'') (\<lambda>v. Inr (PStr (py_str B v)))
         else Inr PNone),
        Inr (get r ''source''),
        idx flat ''inp_value'',
        idx flat ''inp_unit'',
        idx flat ''inp_start_year'',
        idx flat ''inp_end_year'',
        idx flat ''inp_input_type'',
        idx flat ''inp_timeframe'',
        idx flat ''inp_dosing_type'',
        idx flat ''inp_actuals_flag'',
        idx flat ''inp_curve_type'',
        idx flat ''inp_selected_output'',
        idx flat ''inp_pfs_flag'',
        idx flat ''inp_ppc_flag'',
        idx flat ''input_data_full_text''])))"

definition transform_node_data :: "pyrt \<Rightarrow> pyrow list \<Rightarrow> pyval list list res" where
  "transform_node_data B rows = eval_all (map (transform_node_data_row B) rows)"

text \<open>\<open>x or 0\<close>: the value itself when it is truthy, else \<open>0\<close>.\<close>

definition or_zero :: "pyval \<Rightarrow> pyval" where
  "or_zero v = (if truthy v then v else PInt 0)"

definition transform_runs_row :: "pyrow \<Rightarrow> pyval list res" where
  "transform_runs_row r =
     eval_all
       [idx r ''run_id'',
        idx r ''scenario_id'',
        Inr (get r ''run_status''),
        Inr (get r ''run_at''),
        Inr (get r ''run_by''),
        Inr (get r ''run_complete_at''),
        Inr (get r ''run_duration_minutes''),
        Inr (get r ''fail_reason''),
        Inr (or_zero (get r ''branch_count'')),
        Inr (or_zero (get r ''total_nodes_processed'')),
        Inr (or_zero (get r ''nodes_success'')),
        Inr (or_zero (get r ''nodes_failed'')),
        Inr (or_zero (get r ''nodes_timeout''))]"

definition transform_runs :: "pyrow list \<Rightarrow> pyval list list res" where
  "transform_runs rows = eval_all (map transform_runs_row rows)"

definition transform_node_calc_row :: "pyrow \<Rightarrow> pyval list res" where
  "transform_node_calc_row r =
     eval_all
       [idx r ''id'',
        idx r ''run_id'',
        idx r ''scenario_id'',
        Inr (get r ''branch_id''),
        Inr (get r ''event_tag''),
        Inr (get r ''model_node_id''),
        Inr (get r ''node_display_name''),
        Inr (get r ''node_type''),
        Inr (get r ''calc_status''),
        Inr (get r ''fail_reason''),
        Inr (get r ''processing_start_at''),
        Inr (get r ''processing_end_at''),
        Inr (get r ''processing_duration_s''),
        Inr (get r ''output_data_text'')]"

definition transform_node_calc :: "pyrow list \<Rightarrow> pyval list list res" where
  "transform_node_calc rows = eval_all (map transform_node_calc_row rows)"

definition transform_event_data_row :: "pyrt \<Rightarrow> pyrow \<Rightarrow> pyval list res" where
  "transform_event_data_row B r =
     bind_res (idx r ''event_data'') (\<lambda>event_data.
     bind_res (flatten_event_data B event_data) (\<lambda>flat.
     bind_res (idx r ''version_ended_at'') (\<lambda>ended.
     let is_current = (ended = PNone) in
     eval_all
       [idx r ''id'',
        idx r ''scenario_id'',
        Inr (get r ''event_type_name''),
        Inr (get r ''is_inherent''),
        Inr (get r ''population_node_name''),
        Inr (get r ''parent_product_name''),
        idx r ''version_started_at'',
        Inr (get r ''version_ended_at''),
        Inr (PBool is_current),
        Inr (get r ''edited_by''),
        Inr (get r ''event_data_hash''),
        Inr (get r ''is_overridden''),
        Inr (get r ''override_data_text''),
        Inr (get r ''is_validated''),
        Inr (get r ''validation_message''),
        idx flat ''evt_year'',
        idx flat ''evt_share_value'',
        idx flat ''evt_entry_quarter'',
        idx flat ''evt_erosion_rate'',
        idx flat ''evt_launch_date'',
        idx flat ''evt_steady_state'',
        idx flat ''evt_sob_value'',
        idx flat ''event_data_full_text''])))"

definition transform_event_data :: "pyrt \<Rightarrow> pyrow list \<Rightarrow> pyval list list res" where
  "transform_event_data B rows = eval_all (map (transform_event_data_row B) rows)"

definition transform_timeline_row :: "pyrow \<Rightarrow> pyval list res" where
  "transform_timeline_row r =
     eval_all
       [idx r ''scenario_id'',
        idx r ''event_time'',
        idx r ''event_type'',
        Inr (get r ''event_category''),
        Inr (get r ''actor''),
        Inr (get r ''description''),
        Inr (get r ''run_id''),
        Inr (get r ''node_name''),
        Inr (get r ''event_type_name''),
        Inr (get r ''source_key'')]"

definition transform_timeline :: "pyrow list \<Rightarrow> pyval list list res" where
  "transform_timeline rows = eval_all (map transform_timeline_row rows)"

section \<open>The target database\<close>

text \<open>
  The target database is state: the \<open>etl_watermark\<close> table, keyed by \<open>table_name\<close>, and
  the reporting tables, each a list of stored rows (column name and value) with the
  next value of its \<open>BIGSERIAL\<close> sequence. Timestamps are seconds on the database clock.
\<close>

record wm_row =
  last_fetched_at :: int
  rows_last_run :: int
  last_run_at :: "int option"
  total_rows_ever :: int

record table =
  t_rows :: "pyrow list"
  t_serial :: int

record target_db =
  etl_watermark :: "string \<Rightarrow> wm_row option"
  tables :: "string \<Rightarrow> table"

text \<open>
  An \<open>INSERT INTO t (columns) VALUES %s ON CONFLICT (key) ...\<close> statement of load.py, as
  data: the listed columns, the table's remaining columns with their defaults (from the
  \<open>CREATE TABLE\<close> of setup_target.py), the conflict target, and the conflict action with
  the columns it sets from \<open>EXCLUDED\<close> and the columns it sets to \<open>NOW()\<close>.
\<close>

datatype col_default = DefaultNow | DefaultVal pyval | DefaultSerial

datatype on_conflict = DoNothing | DoUpdate "string list" "string list"

record insert_stmt =
  s_table :: string
  s_columns :: "string list"
  s_defaults :: "(string \<times> col_default) list"
  s_conflict_key :: string
  s_on_conflict :: on_conflict

definition has_serial :: "insert_stmt \<Rightarrow> bool" where
  "has_serial st = (DefaultSerial \<in> set (map snd (s_defaults st)))"

definition default_value :: "int \<Rightarrow> int \<Rightarrow> col_default \<Rightarrow> pyval" where
  "default_value now serial d =
     (case d of DefaultNow \<Rightarrow> PDatetime now | DefaultVal v \<Rightarrow> v | DefaultSerial \<Rightarrow> PInt serial)"

definition new_row :: "insert_stmt \<Rightarrow> int \<Rightarrow> int \<Rightarrow> pyval list \<Rightarrow> pyrow" where
  "new_row st now serial vals =
     zip (s_columns st) vals
     @ map (\<lambda>cd. (fst cd, default_value now serial (snd cd))) (s_defaults st)"

definition conflict_update :: "string list \<Rightarrow> string list \<Rightarrow> int \<Rightarrow> pyrow \<Rightarrow> pyrow \<Rightarrow> pyrow" where
  "conflict_update cs ns now excluded existing =
     map (\<lambda>kv. if fst kv \<in> set cs then (fst kv, get excluded (fst kv))
               else if fst kv \<in> set ns then (fst kv, PDatetime now)
               else kv) existing"

text \<open>
  One proposed row. A conflict needs a non-null key that a stored row already has (a
  unique index never matches \<open>NULL\<close>). The sequence advances for every proposed row.
\<close>

definition insert_one :: "insert_stmt \<Rightarrow> int \<Rightarrow> table \<Rightarrow> pyval list \<Rightarrow> table" where
  "insert_one st now tb vals =
     (let proposed = new_row st now (t_serial tb) vals;
          k = get proposed (s_conflict_key st);
          tb1 = tb\<lparr>t_serial := (if has_serial st then t_serial tb + 1 else t_serial tb)\<rparr>
      in if k \<noteq> PNone \<and> k \<in> set (map (\<lambda>r. get r (s_conflict_key st)) (t_rows tb))
         then (case s_on_conflict st of
                 DoNothing \<Rightarrow> tb1
               | DoUpdate cs ns \<Rightarrow>
                   tb1\<lparr>t_rows :=
                         map (\<lambda>r. if get r (s_conflict_key st) = k
                                   then conflict_update cs ns now proposed r else r)
                           (t_rows tb)\<rparr>)
         else tb1\<lparr>t_rows := t_rows tb @ [proposed]\<rparr>)"

definition key_of :: "insert_stmt \<Rightarrow> pyval list \<Rightarrow> pyval" where
  "key_of st vals = get (zip (s_columns st) vals) (s_conflict_key st)"

definition is_do_update :: "insert_stmt \<Rightarrow> bool" where
  "is_do_update st = (case s_on_conflict st of DoNothing \<Rightarrow> False | DoUpdate cs ns \<Rightarrow> True)"

text \<open>
  One statement (one page of \<open>execute_values\<close>). The server rejects a tuple whose
  arity is not the column list's, and a \<open>DO UPDATE\<close> statement that proposes the same
  non-null key twice ("cannot affect row a second time").
\<close>

definition exec_insert :: "insert_stmt \<Rightarrow> int \<Rightarrow> table \<Rightarrow> pyval list list \<Rightarrow> table res" where
  "exec_insert st now tb page =
     (if list_ex (\<lambda>vals. length vals \<noteq> length (s_columns st)) page
      then Inl (OtherError ''ProgrammingError'')
      else if is_do_update st
               \<and> \<not> distinct (filter (\<lambda>k. k \<noteq> PNone) (map (key_of st) page))
      then Inl (OtherError ''CardinalityViolation'')
      else Inr (foldl (insert_one st now) tb page))"

fun exec_pages :: "insert_stmt \<Rightarrow> int \<Rightarrow> table \<Rightarrow> pyval list list list \<Rightarrow> table res" where
  "exec_pages st now tb [] = Inr tb"
| "exec_pages st now tb (p # ps) =
     (case exec_insert st now tb p of
        Inl e \<Rightarrow> Inl e
      | Inr tb' \<Rightarrow> exec_pages st now tb' ps)"

function paginate :: "nat \<Rightarrow> 'a list \<Rightarrow> 'a list list" where
  "paginate n xs = (if n = 0 \<or> xs = [] then [] else take n xs # paginate n (drop n xs))"
  by pat_completeness auto
termination
  by (relation "measure (\<lambda>p. length (snd p))") auto

declare paginate.simps [simp del]

section \<open>db.py\<close>

text \<open>
  \<open>fault\<close> is the database's verdict on the transaction for reasons outside the model
  (no connection, a timeout, a constraint of another column): \<open>Some e\<close> raises \<open>e\<close> and
  leaves the database as it was (the connection is rolled back); \<open>now\<close> is the
  transaction's \<open>NOW()\<close>. The pages run in one transaction, committed at the end.
\<close>

definition executemany_target ::
  "pyexc option \<Rightarrow> int \<Rightarrow> target_db \<Rightarrow> insert_stmt \<Rightarrow> pyval list list \<Rightarrow> (nat \<times> target_db) res" where
  "executemany_target fault now db sql rows =
     (if rows = [] then Inr (0, db)
      else (case fault of
              Some e \<Rightarrow> Inl e
            | None \<Rightarrow>
                (case exec_pages sql now (tables db (s_table sql)) (paginate 500 rows) of
                   Inl e \<Rightarrow> Inl e
                 | Inr tb \<Rightarrow>
                     Inr (length rows, db\<lparr>tables := (tables db)(s_table sql := tb)\<rparr>))))"

section \<open>load.py\<close>

definition sql_load_scenarios :: insert_stmt where
  "sql_load_scenarios =
     \<lparr>s_table = ''dim_scenario'',
      s_columns =
       [''scenario_id'', ''scenario_display_name'', ''scenario_status'',
        ''is_starter'', ''currency'', ''currency_code'', ''scenario_start_year'',
        ''scenario_end_year'', ''scenario_region_name'', ''scenario_country_name'',
        ''created_at'', ''created_by'', ''submitted_at'', ''submitted_by'',
        ''locked_at'', ''locked_by'', ''updated_at'', ''updated_by'', ''withdraw_at'',
        ''withdraw_by'', ''delete_at'', ''model_id'', ''model_display_name'',
        ''model_type'', ''model_publish_level'', ''therapeutic_area_name'',
        ''disease_area_name'', ''loe_enabled'', ''model_region_name'',
        ''model_country_name'', ''forecast_cycle_name'', ''forecast_cycle_start'',
        ''forecast_cycle_end'', ''horizon_start_limit'', ''horizon_end_limit'',
        ''starter_created''],
      s_defaults = [(''etl_loaded_at'', DefaultNow), (''etl_updated_at'', DefaultNow)],
      s_conflict_key = ''scenario_id'',
      s_on_conflict =
        DoUpdate
          [''scenario_status'', ''submitted_at'', ''submitted_by'', ''locked_at'',
           ''locked_by'', ''updated_at'', ''updated_by'', ''withdraw_at'',
           ''withdraw_by'', ''delete_at'']
          [''etl_updated_at'']\<rparr>"

definition sql_load_node_data :: insert_stmt where
  "sql_load_node_data =
     \<lparr>s_table = ''fact_node_input_history'',
      s_columns =
       [''source_id'', ''scenario_id'', ''model_node_id'', ''node_display_name'',
        ''node_type'', ''tab_name'', ''tab_level'', ''group_name'', ''group_type'',
        ''node_seq'', ''flow'', ''version_started_at'', ''version_ended_at'',
        ''is_current_version'', ''edited_by'', ''input_hash'', ''input_validated'',
        ''validation_message'', ''data_source'', ''inp_value'', ''inp_unit'',
        ''inp_start_year'', ''inp_end_year'', ''inp_input_type'', ''inp_timeframe'',
        ''inp_dosing_type'', ''inp_actuals_flag'', ''inp_curve_type'',
        ''inp_selected_output'', ''inp_pfs_flag'', ''inp_ppc_flag'',
        ''input_data_full_text''],
      s_defaults = [(''id'', DefaultSerial), (''etl_loaded_at'', DefaultNow)],
      s_conflict_key = ''source_id'',
      s_on_conflict =
        DoUpdate
          [''version_ended_at'', ''is_current_version'', ''input_validated'',
           ''validation_message'']
          [''etl_loaded_at'']\<rparr>"

definition sql_load_runs :: insert_stmt where
  "sql_load_runs =
     \<lparr>s_table = ''fact_run_summary'',
      s_columns =
       [''run_id'', ''scenario_id'', ''run_status'', ''run_at'', ''run_by'',
        ''run_complete_at'', ''run_duration_minutes'', ''fail_reason'',
        ''branch_count'', ''total_nodes_processed'', ''nodes_success'',
        ''nodes_failed'', ''nodes_timeout''],
      s_defaults =
       [(''node_edits_since_prev_run'', DefaultVal (PInt 0)),
        (''event_edits_since_prev_run'', DefaultVal (PInt 0)),
        (''etl_loaded_at'', DefaultNow), (''etl_updated_at'', DefaultNow)],
      s_conflict_key = ''run_id'',
      s_on_conflict =
        DoUpdate
          [''run_status'', ''run_complete_at'', ''run_duration_minutes'', ''fail_reason'',
           ''branch_count'', ''total_nodes_processed'', ''nodes_success'',
           ''nodes_failed'', ''nodes_timeout'']
          [''etl_updated_at'']\<rparr>"

definition sql_load_node_calc :: insert_stmt where
  "sql_load_node_calc =
     \<lparr>s_table = ''fact_node_calc_results'',
      s_columns =
       [''source_id'', ''run_id'', ''scenario_id'', ''branch_id'', ''event_tag'',
        ''model_node_id'', ''node_display_name'', ''node_type'', ''calc_status'',
        ''fail_reason'', ''processing_start_at'', ''processing_end_at'',
        ''processing_duration_s'', ''output_data_text''],
      s_defaults = [(''id'', DefaultSerial), (''etl_loaded_at'', DefaultNow)],
      s_conflict_key = ''source_id'',
      s_on_conflict = DoNothing\<rparr>"

definition sql_load_event_data :: insert_stmt where
  "sql_load_event_data =
     \<lparr>s_table = ''fact_event_input_history'',
      s_columns =
       [''source_id'', ''scenario_id'', ''event_type_name'', ''is_inherent'',
        ''population_node_name'', ''parent_product_name'', ''version_started_at'',
        ''version_ended_at'', ''is_current_version'', ''edited_by'',
        ''event_data_hash'', ''is_overridden'', ''override_data_text'',
        ''is_validated'', ''validation_message'', ''evt_year'', ''evt_share_value'',
        ''evt_entry_quarter'', ''evt_erosion_rate'', ''evt_launch_date'',
        ''evt_steady_state'', ''evt_sob_value'', ''event_data_full_text''],
      s_defaults = [(''id'', DefaultSerial), (''etl_loaded_at'', DefaultNow)],
      s_conflict_key = ''source_id'',
      s_on_conflict =
        DoUpdate
          [''version_ended_at'', ''is_current_version'', ''is_validated'',
           ''validation_message'']
          [''etl_loaded_at'']\<rparr>"

definition sql_load_timeline :: insert_stmt where
  "sql_load_timeline =
     \<lparr>s_table = ''fact_scenario_timeline'',
      s_columns =
       [''scenario_id'', ''event_time'', ''event_type'', ''event_category'',
        ''actor'', ''description'', ''run_id'', ''node_name'', ''event_type_name'',
        ''source_key''],
      s_defaults = [(''id'', DefaultSerial), (''etl_loaded_at'', DefaultNow)],
      s_conflict_key = ''source_key'',
      s_on_conflict = DoNothing\<rparr>"

text \<open>
  Every loader has the same body: return 0 on an empty batch, else run its statement
  through \<open>executemany_target\<close> and return what that returns.
\<close>

definition load_with ::
  "insert_stmt \<Rightarrow> pyexc option \<Rightarrow> int \<Rightarrow> target_db \<Rightarrow> pyval list list \<Rightarrow> (nat \<times> target_db) res" where
  "load_with sql fault now db rows =
     (if rows = [] then Inr (0, db) else executemany_target fault now db sql rows)"

definition load_scenarios where "load_scenarios = load_with sql_load_scenarios"
definition load_node_data where "load_node_data = load_with sql_load_node_data"
definition load_runs where "load_runs = load_with sql_load_runs"
definition load_node_calc where "load_node_calc = load_with sql_load_node_calc"
definition load_event_data where "load_event_data = load_with sql_load_event_data"
definition load_timeline where "load_timeline = load_with sql_load_timeline"

section \<open>extract.py: the watermark\<close>

definition OVERLAP_SEC :: int where
  "OVERLAP_SEC = 90"

text \<open>\<open>datetime(2020, 1, 1)\<close>, in seconds since 1970-01-01.\<close>

definition default_epoch :: int where
  "default_epoch = 1577836800"

definition get_watermark :: "pyexc option \<Rightarrow> target_db \<Rightarrow> string \<Rightarrow> int res" where
  "get_watermark fault db table_name =
     (case fault of
        Some e \<Rightarrow> Inl e
      | None \<Rightarrow>
          (case etl_watermark db table_name of
             Some row \<Rightarrow> Inr (last_fetched_at row - OVERLAP_SEC)
           | None \<Rightarrow> Inr default_epoch))"

text \<open>
  The \<open>UPDATE ... WHERE table_name = %s\<close> changes the one row of that name, if there is
  one; \<open>total_rows_ever\<close> is a \<open>BIGINT\<close>, and the server rejects a sum beyond its range.
\<close>

definition update_watermark ::
  "pyexc option \<Rightarrow> int \<Rightarrow> target_db \<Rightarrow> string \<Rightarrow> int \<Rightarrow> target_db res" where
  "update_watermark fault now db table_name rows_fetched =
     (case fault of
        Some e \<Rightarrow> Inl e
      | None \<Rightarrow>
          (case etl_watermark db table_name of
             None \<Rightarrow> Inr db
           | Some row \<Rightarrow>
               if total_rows_ever row + rows_fetched > 9223372036854775807
               then Inl (OtherError ''NumericValueOutOfRange'')
               else Inr (db\<lparr>etl_watermark := (etl_watermark db)(table_name \<mapsto>
                           row\<lparr>last_fetched_at := now,
                               rows_last_run := rows_fetched,
                               last_run_at := Some now,
                               total_rows_ever := total_rows_ever row + rows_fetched\<rparr>)\<rparr>)))"

section \<open>pipeline.py\<close>

text \<open>
  What one entity's block of \<open>run_cycle\<close> meets in one cycle: the verdicts of the target
  database on the three transactions, the answer of the source database to the extract
  query as a function of \<open>since\<close>, and the database clock at the load and at the commit.
\<close>

record unit_env =
  read_fault :: "pyexc option"
  source :: "int \<Rightarrow> pyrow list res"
  load_fault :: "pyexc option"
  load_now :: int
  commit_fault :: "pyexc option"
  commit_now :: int

record etl_unit =
  u_table :: string
  u_label :: string
  u_transform :: "pyrow list \<Rightarrow> pyval list list res"
  u_load :: "pyexc option \<Rightarrow> int \<Rightarrow> target_db \<Rightarrow> pyval list list \<Rightarrow> (nat \<times> target_db) res"

record cycle_state =
  c_db :: target_db
  c_total_rows :: nat
  c_errors :: "(string \<times> pyexc) list"

text \<open>
  The body of one \<open>try\<close> block: the state when the block ends, and the exception that
  ended it, if one did.
\<close>

definition etl_try :: "unit_env \<Rightarrow> etl_unit \<Rightarrow> cycle_state \<Rightarrow> cycle_state \<times> pyexc option" where
  "etl_try E u st =
     (case get_watermark (read_fault E) (c_db st) (u_table u) of
        Inl e \<Rightarrow> (st, Some e)
      | Inr since \<Rightarrow>
          (case source E since of
             Inl e \<Rightarrow> (st, Some e)
           | Inr rows \<Rightarrow>
               (case (if rows \<noteq> []
                      then (case u_transform u rows of
                              Inl e \<Rightarrow> (st, Some e)
                            | Inr transformed \<Rightarrow>
                                (case u_load u (load_fault E) (load_now E) (c_db st) transformed of
                                   Inl e \<Rightarrow> (st, Some e)
                                 | Inr (n, db') \<Rightarrow>
                                     (st\<lparr>c_db := db', c_total_rows := c_total_rows st + n\<rparr>,
                                      None)))
                      else (st, None)) of
                  (st1, Some e) \<Rightarrow> (st1, Some e)
                | (st1, None) \<Rightarrow>
                    (case update_watermark (commit_fault E) (commit_now E) (c_db st1)
                            (u_table u) (int (length rows)) of
                       Inl e \<Rightarrow> (st1, Some e)
                     | Inr db2 \<Rightarrow> (st1\<lparr>c_db := db2\<rparr>, None)))))"

text \<open>\<open>except Exception\<close>: log and go on; anything else propagates.\<close>

definition etl_step :: "unit_env \<Rightarrow> etl_unit \<Rightarrow> cycle_state \<Rightarrow> cycle_state \<times> pyexc option" where
  "etl_step E u st =
     (case etl_try E u st of
        (st1, None) \<Rightarrow> (st1, None)
      | (st1, Some e) \<Rightarrow>
          if is_Exception e then (st1\<lparr>c_errors := c_errors st1 @ [(u_label u, e)]\<rparr>, None)
          else (st1, Some e))"

fun run_units ::
  "(string \<Rightarrow> unit_env) \<Rightarrow> etl_unit list \<Rightarrow> cycle_state \<Rightarrow> cycle_state \<times> pyexc option" where
  "run_units env [] st = (st, None)"
| "run_units env (u # us) st =
     (case etl_step (env (u_table u)) u st of
        (st1, None) \<Rightarrow> run_units env us st1
      | (st1, Some e) \<Rightarrow> (st1, Some e))"

text \<open>The six blocks of \<open>run_cycle\<close>, in their order.\<close>

definition units :: "pyrt \<Rightarrow> etl_unit list" where
  "units B =
     [\<lparr>u_table = ''public.fc_scenario'', u_label = ''Scenarios'',
       u_transform = transform_scenarios, u_load = load_scenarios\<rparr>,
      \<lparr>u_table = ''public.fc_scenario_node_data'', u_label = ''Node data'',
       u_transform = transform_node_data B, u_load = load_node_data\<rparr>,
      \<lparr>u_table = ''public.fc_scenario_run'', u_label = ''Runs'',
       u_transform = transform_runs, u_load = load_runs\<rparr>,
      \<lparr>u_table = ''public.fc_scenario_node_calc'', u_label = ''Node calc'',
       u_transform = transform_node_calc, u_load = load_node_calc\<rparr>,
      \<lparr>u_table = ''public.fc_scenario_event_data'', u_label = ''Event data'',
       u_transform = transform_event_data B, u_load = load_event_data\<rparr>,
      \<lparr>u_table = ''timeline'', u_label = ''Timeline'',
       u_transform = transform_timeline, u_load = load_timeline\<rparr>]"

text \<open>
  \<open>run_cycle\<close>, from the state in which it starts (\<open>total_rows = 0\<close>, nothing logged):
  the state it leaves (its return value is \<open>c_total_rows\<close>) and the exception it lets
  through, if any.
\<close>

definition cycle_start :: "target_db \<Rightarrow> cycle_state" where
  "cycle_start db0 = \<lparr>c_db = db0, c_total_rows = 0, c_errors = []\<rparr>"

definition run_cycle ::
  "pyrt \<Rightarrow> (string \<Rightarrow> unit_env) \<Rightarrow> target_db \<Rightarrow> cycle_state \<times> pyexc option" where
  "run_cycle B env db0 = run_units env (units B) (cycle_start db0)"

text \<open>
  The database after the cycles that run one after the other, each with what it meets.
\<close>

definition run_cycles :: "pyrt \<Rightarrow> (string \<Rightarrow> unit_env) list \<Rightarrow> target_db \<Rightarrow> target_db" where
  "run_cycles B envs db0 = foldl (\<lambda>db env. c_db (fst (run_cycle B env db))) db0 envs"

section \<open>scheduler.py\<close>

definition POLL_INTERVAL_SEC :: nat where
  "POLL_INTERVAL_SEC = 30"

definition MAX_CONSECUTIVE_FAILURES :: nat where
  "MAX_CONSECUTIVE_FAILURES = 10"

datatype log_level = DEBUG | INFO | ERROR | CRITICAL

datatype effect = Log log_level string | Sleep nat

text \<open>
  What the process does when \<open>main\<close> ends: \<open>sys.exit(n)\<close> ends it with status \<open>n\<close>; an
  exception nobody catches ends it with a traceback and a non-zero status.
\<close>

datatype outcome = Running | Exited int | Uncaught pyexc

record sched_state =
  consecutive_failures :: nat
  effects :: "effect list"

text \<open>
  One pass through the \<open>while True\<close> body. Its input is what the pass meets: how the call
  \<open>run_cycle()\<close> ends (\<open>None\<close>: it returns) and how \<open>time.sleep\<close> ends (\<open>None\<close>: the
  interval passes; \<open>Some e\<close>: \<open>e\<close> is raised inside it, as a \<open>KeyboardInterrupt\<close> is when
  the signal arrives during the sleep).
\<close>

definition sleep_step :: "sched_state \<Rightarrow> pyexc option \<Rightarrow> sched_state \<times> outcome" where
  "sleep_step s slept =
     (let s1 = s\<lparr>effects := effects s @ [Log DEBUG ''Sleeping before next cycle'']\<rparr>
      in case slept of
           None \<Rightarrow> (s1\<lparr>effects := effects s1 @ [Sleep POLL_INTERVAL_SEC]\<rparr>, Running)
         | Some e \<Rightarrow> (s1, Uncaught e))"

definition iteration ::
  "sched_state \<Rightarrow> pyexc option \<times> pyexc option \<Rightarrow> sched_state \<times> outcome" where
  "iteration s ev =
     (case fst ev of
        None \<Rightarrow> sleep_step (s\<lparr>consecutive_failures := 0\<rparr>) (snd ev)
      | Some e \<Rightarrow>
          if e = KeyboardInterrupt
          then (s\<lparr>effects := effects s @ [Log INFO ''ETL stopped by user (KeyboardInterrupt)'']\<rparr>,
                Exited 0)
          else if is_Exception e
          then (let n = consecutive_failures s + 1;
                    s1 = s\<lparr>consecutive_failures := n,
                           effects := effects s @ [Log ERROR ''ETL cycle failed'']\<rparr>;
                    s2 = (if n \<ge> MAX_CONSECUTIVE_FAILURES
                          then s1\<lparr>effects := effects s1 @ [Log CRITICAL ''consecutive failures'']\<rparr>
                          else s1)
                in sleep_step s2 (snd ev))
          else (s, Uncaught e))"

text \<open>
  The loop never ends by itself: \<open>main_loop\<close> runs it over the passes given, and is
  still \<open>Running\<close> when they are used up.
\<close>

fun main_loop ::
  "sched_state \<Rightarrow> (pyexc option \<times> pyexc option) list \<Rightarrow> sched_state \<times> outcome" where
  "main_loop s [] = (s, Running)"
| "main_loop s (ev # evs) =
     (case iteration s ev of
        (s1, Running) \<Rightarrow> main_loop s1 evs
      | (s1, out) \<Rightarrow> (s1, out))"

definition main :: "(pyexc option \<times> pyexc option) list \<Rightarrow> sched_state \<times> outcome" where
  "main evs = main_loop \<lparr>consecutive_failures = 0, effects = []\<rparr> evs"

section \<open>Sample inputs\<close>

text \<open>
  A runtime for evaluating the model at sample inputs: each library function is the
  table of what CPython returns for the arguments the samples pass, and raises
  \<open>OtherError\<close> for an argument that is not tabulated. \<open>Finite 25 (-1)\<close> is 12.5,
  \<open>Finite 1 (-2)\<close> is 0.25.
\<close>

definition sample_float :: "(pyval \<times> pyfloat res) list" where
  "sample_float =
     [(PStr ''12.5'', Inr (Finite 25 (-1))),
      (PFloat (Finite 1 (-2)), Inr (Finite 1 (-2))),
      (PInt 3, Inr (Finite 3 0)),
      (PStr ''abc'', Inl ValueError),
      (PList [], Inl TypeError)]"

definition sample_int :: "(pyval \<times> int res) list" where
  "sample_int =
     [(PInt 2025, Inr 2025),
      (PInt 3, Inr 3),
      (PStr ''2031'', Inr 2031),
      (PStr ''abc'', Inl ValueError),
      (PList [], Inl TypeError)]"

definition sample_loads :: "(string \<times> pyval res) list" where
  "sample_loads =
     [(''{\"unit\": \"mg\"}'', Inr (PDict [(''unit'', PStr ''mg'')])),
      (''not json'', Inl ValueError)]"

definition sample_payload :: pyval where
  "sample_payload =
     PDict [(''value'', PStr ''12.5''), (''unit'', PStr ''mg''), (''start_year'', PInt 2025),
            (''pfs_flag'', PStr ''Yes''), (''note'', PStr ''x'')]"

definition sample_event_payload :: pyval where
  "sample_event_payload =
     PDict [(''year'', PStr ''2031''), (''share_value'', PFloat (Finite 1 (-2))),
            (''launch_date'', PStr ''2031-Q2''), (''comment'', PStr ''y'')]"

definition sample_dumps :: "(pyval \<times> string) list" where
  "sample_dumps =
     [(PDict [(''unit'', PStr ''mg'')], ''{\"unit\": \"mg\"}''),
      (sample_payload,
       ''{\"value\": \"12.5\", \"unit\": \"mg\", \"start_year\": 2025, \"pfs_flag\": \"Yes\", \"note\": \"x\"}''),
      (sample_event_payload,
       ''{\"year\": \"2031\", \"share_value\": 0.25, \"launch_date\": \"2031-Q2\", \"comment\": \"y\"}'')]"

definition sample_rt :: pyrt where
  "sample_rt =
     \<lparr>py_float = (\<lambda>v. case map_of sample_float v of
                         Some r \<Rightarrow> r | None \<Rightarrow> Inl (OtherError ''not tabulated'')),
      py_int = (\<lambda>v. case map_of sample_int v of
                       Some r \<Rightarrow> r | None \<Rightarrow> Inl (OtherError ''not tabulated'')),
      py_str = (\<lambda>v. case v of PStr s \<Rightarrow> s | _ \<Rightarrow> ''not tabulated''),
      json_loads = (\<lambda>s. case map_of sample_loads s of
                           Some r \<Rightarrow> r | None \<Rightarrow> Inl (OtherError ''not tabulated'')),
      json_dumps = (\<lambda>v. case map_of sample_dumps v of
                           Some t \<Rightarrow> t | None \<Rightarrow> ''not tabulated'')\<rparr>"

text \<open>
  A row as \<open>extract_node_data\<close> returns it (the columns of its \<open>SELECT\<close>), with the
  validation message and the end of the version left open.
\<close>

definition node_row :: "pyval \<Rightarrow> pyval \<Rightarrow> pyrow" where
  "node_row message ended =
     [(''id'', PStr ''nd-1''), (''scenario_id'', PStr ''sc-1''),
      (''model_node_id'', PStr ''mn-1''), (''input_data'', sample_payload),
      (''input_hash'', PStr ''h1''), (''input_validated'', PBool False),
      (''input_validation_message'', message), (''source'', PStr ''user''),
      (''version_started_at'', PDatetime 1000), (''version_ended_at'', ended),
      (''edited_by'', PStr ''ann''), (''node_display_name'', PStr ''Price''),
      (''node_type'', PStr ''input''), (''node_seq'', PInt 1), (''flow'', PStr ''main''),
      (''group_name'', PStr ''Pricing''), (''group_type'', PStr ''std''),
      (''group_seq'', PInt 1), (''tab_name'', PStr ''Inputs''), (''tab_level'', PInt 1),
      (''tab_seq'', PInt 1)]"

section \<open>Vocabulary of the properties\<close>

text \<open>
  A stored row without the named columns, the values a table holds in one column, and
  the database after a call of a loader (as it was, when the call raised).
\<close>

definition frame_of :: "string list \<Rightarrow> pyrow \<Rightarrow> pyrow" where
  "frame_of cols row = filter (\<lambda>kv. fst kv \<notin> set cols) row"

definition column_values :: "string \<Rightarrow> table \<Rightarrow> pyval list" where
  "column_values c tb = map (\<lambda>r. get r c) (t_rows tb)"

text \<open>Two states of a cycle hold the same watermark row \<open>t\<close> and the same table \<open>T\<close>.\<close>

definition same_at :: "string \<Rightarrow> string \<Rightarrow> cycle_state \<Rightarrow> cycle_state \<Rightarrow> bool" where
  "same_at t T a b =
     (etl_watermark (c_db a) t = etl_watermark (c_db b) t
      \<and> tables (c_db a) T = tables (c_db b) T)"

definition after_load :: "target_db \<Rightarrow> (nat \<times> target_db) res \<Rightarrow> target_db" where
  "after_load db r = (case r of Inl e \<Rightarrow> db | Inr nd \<Rightarrow> snd nd)"

section \<open>Sample database\<close>

text \<open>
  The target database as setup_target.py leaves it: seven seeded watermark rows and
  empty tables. A loaded tuple of \<open>fact_node_calc_results\<close>, and the tuple that
  \<open>transform_node_data\<close> builds from \<open>node_row\<close>.
\<close>

definition seeded_db :: target_db where
  "seeded_db =
     \<lparr>etl_watermark =
        map_of (map (\<lambda>name. (name, \<lparr>last_fetched_at = default_epoch, rows_last_run = 0,
                                     last_run_at = None, total_rows_ever = 0\<rparr>))
          [''public.fc_scenario'', ''public.fc_scenario_node_data'', ''public.fc_scenario_run'',
           ''public.fc_scenario_node_calc'', ''public.fc_scenario_event_data'',
           ''public.fc_scenario_run_branch'', ''timeline'']),
      tables = (\<lambda>name. \<lparr>t_rows = [], t_serial = 1\<rparr>)\<rparr>"

definition calc_tuple :: "pyval list" where
  "calc_tuple =
     [PStr ''nc-1'', PStr ''run-1'', PStr ''sc-1'', PStr ''br-1'', PStr ''base'',
      PStr ''mn-1'', PStr ''Price'', PStr ''input'', PStr ''success'', PNone,
      PDatetime 1000, PDatetime 1002, PInt 2, PStr ''{}'']"

definition node_tuple :: "pyval \<Rightarrow> pyval list" where
  "node_tuple ended =
     [PStr ''nd-1'', PStr ''sc-1'', PStr ''mn-1'', PStr ''Price'', PStr ''input'',
      PStr ''Inputs'', PInt 1, PStr ''Pricing'', PStr ''std'', PInt 1, PStr ''main'',
      PDatetime 1000, ended, PBool (ended = PNone), PStr ''ann'', PStr ''h1'', PBool False,
      PNone, PStr ''user'', PFloat (Finite 25 (- 1)), PStr ''mg'', PInt 2025, PNone, PNone,
      PNone, PNone, PNone, PNone, PNone, PBool True, PNone,
      PStr (json_dumps sample_rt sample_payload)]"

definition loaded_db :: target_db where
  "loaded_db = after_load seeded_db (load_node_data None 100 seeded_db [node_tuple PNone])"

text \<open>
  A cycle in which the source database refuses the scenario query, answers the node
  data query with one row, and has nothing new for the other entities.
\<close>

definition sample_env :: "string \<Rightarrow> unit_env" where
  "sample_env table_name =
     \<lparr>read_fault = None,
      source =
        (if table_name = ''public.fc_scenario''
         then (\<lambda>since. Inl (OtherError ''connection refused''))
         else if table_name = ''public.fc_scenario_node_data''
         then (\<lambda>since. Inr [node_row PNone PNone])
         else (\<lambda>since. Inr [])),
      load_fault = None,
      load_now = 1700000000,
      commit_fault = None,
      commit_now = 1700000001\<rparr>"

text \<open>
  The same cycle met with a database clock that has been set back: \<open>NOW()\<close> reads 5 at
  every commit, behind the timestamps the watermark rows hold.
\<close>

definition early_clock_env :: "string \<Rightarrow> unit_env" where
  "early_clock_env table_name = (sample_env table_name)\<lparr>commit_now := 5\<rparr>"

section \<open>Properties of the coercions\<close>

lemma lower_simps [simp]:
  "lower [] = []"
  "lower (c # cs) = lower_char c # lower cs"
  by (simp_all add: lower_def)

text \<open>
  C6 (counterexample). The claim has the coercions return \<open>None\<close> for an input that does
  not parse. \<open>safe_bool\<close> tests membership in \<open>("true", "1", "yes")\<close>: for the string
  \<open>maybe\<close> it returns \<open>False\<close>, and not \<open>None\<close>.
\<close>

theorem safe_bool_unparseable_counterexample:
  "safe_bool (PStr ''maybe'') = Inr (PBool False) \<and> safe_bool (PStr ''maybe'') \<noteq> Inr PNone"
  by (simp add: safe_bool_def lower_char_def)

text \<open>
  C6 (amended). \<open>safe_bool\<close> never raises and returns \<open>None\<close> for \<open>None\<close> only: a boolean
  is returned as it is, a string gives \<open>True\<close> exactly when its lower-case form is
  \<open>true\<close>, \<open>1\<close> or \<open>yes\<close> and \<open>False\<close> otherwise, any other value gives its truth value.
  \<open>safe_numeric\<close> and \<open>safe_int\<close> return \<open>None\<close> for \<open>None\<close> and whenever \<open>float\<close>, or
  \<open>int\<close>, raises \<open>ValueError\<close> or \<open>TypeError\<close>, and the converted value when the
  conversion returns one.
\<close>

theorem safe_coercions_tolerant:
  "(\<exists>r. safe_bool v = Inr r)
   \<and> (safe_bool v = Inr PNone \<longleftrightarrow> v = PNone)
   \<and> safe_bool (PBool b) = Inr (PBool b)
   \<and> safe_bool (PStr s) = Inr (PBool (lower s \<in> set [''true'', ''1'', ''yes'']))
   \<and> safe_bool (PInt i) = Inr (PBool (i \<noteq> 0))
   \<and> (case v of PNone \<Rightarrow> True | PBool c \<Rightarrow> True | PStr t \<Rightarrow> True
        | _ \<Rightarrow> safe_bool v = Inr (PBool (truthy v)))
   \<and> safe_numeric B PNone = Inr PNone
   \<and> safe_int B PNone = Inr PNone
   \<and> (py_float B x = Inl ValueError \<or> py_float B x = Inl TypeError
        \<longrightarrow> safe_numeric B x = Inr PNone)
   \<and> (py_int B y = Inl ValueError \<or> py_int B y = Inl TypeError
        \<longrightarrow> safe_int B y = Inr PNone)
   \<and> (x' \<noteq> PNone \<and> py_float B x' = Inr f \<longrightarrow> safe_numeric B x' = Inr (PFloat f))
   \<and> (y' \<noteq> PNone \<and> py_int B y' = Inr n \<longrightarrow> safe_int B y' = Inr (PInt n))"
  by (cases v) (auto simp: safe_bool_def safe_numeric_def safe_int_def)

theorem safe_coercions_tolerant_witness:
  "safe_bool (PStr ''YES'') = Inr (PBool True)
   \<and> safe_numeric sample_rt (PStr ''abc'') = Inr PNone
   \<and> safe_int sample_rt (PList []) = Inr PNone
   \<and> safe_numeric sample_rt (PStr ''12.5'') = Inr (PFloat (Finite 25 (- 1)))
   \<and> safe_int sample_rt (PStr ''2031'') = Inr (PInt 2031)"
  using safe_coercions_tolerant [of "PStr ''YES''" True "''YES''" 0 sample_rt "PStr ''abc''"
      "PList []" "PStr ''12.5''" "Finite 25 (- 1)" "PStr ''2031''" 2031]
  by (simp add: sample_rt_def sample_float_def sample_int_def lower_char_def)

section \<open>Properties of the flattening\<close>

lemmas sample_defs = sample_rt_def sample_float_def sample_int_def sample_dumps_def
  sample_loads_def sample_payload_def sample_event_payload_def

lemma safe_bool_returns: "\<exists>r. safe_bool v = Inr r"
  by (cases v) (simp_all add: safe_bool_def)

lemma not_isl_obtain:
  assumes "\<not> isl m"
  obtains r where "m = Inr r"
  using assms by (cases m) auto

lemma flatten_input_data_dict:
  assumes "\<not> isl (safe_numeric B (safe_get (PDict kvs) ''value''))"
    and "\<not> isl (safe_int B (safe_get (PDict kvs) ''start_year''))"
    and "\<not> isl (safe_int B (safe_get (PDict kvs) ''end_year''))"
  shows "\<exists>flat. flatten_input_data B (PDict kvs) = Inr flat
      \<and> idx flat ''inp_value'' = safe_numeric B (safe_get (PDict kvs) ''value'')
      \<and> idx flat ''inp_unit'' = Inr (safe_get (PDict kvs) ''unit'')
      \<and> idx flat ''inp_start_year'' = safe_int B (safe_get (PDict kvs) ''start_year'')
      \<and> idx flat ''inp_end_year'' = safe_int B (safe_get (PDict kvs) ''end_year'')
      \<and> idx flat ''inp_input_type'' = Inr (safe_get (PDict kvs) ''input_type'')
      \<and> idx flat ''inp_timeframe'' = Inr (safe_get (PDict kvs) ''timeframe'')
      \<and> idx flat ''inp_dosing_type'' = Inr (safe_get (PDict kvs) ''dosing_type'')
      \<and> idx flat ''inp_actuals_flag'' = safe_bool (safe_get (PDict kvs) ''actuals_flag'')
      \<and> idx flat ''inp_curve_type'' = Inr (safe_get (PDict kvs) ''curve_type'')
      \<and> idx flat ''inp_selected_output'' = Inr (safe_get (PDict kvs) ''selected_output'')
      \<and> idx flat ''inp_pfs_flag'' = safe_bool (safe_get (PDict kvs) ''pfs_flag'')
      \<and> idx flat ''inp_ppc_flag'' = safe_bool (safe_get (PDict kvs) ''ppc_flag'')
      \<and> idx flat ''input_data_full_text''
          = Inr (if kvs = [] then PNone else PStr (json_dumps B (PDict kvs)))"
proof -
  obtain a where a: "safe_numeric B (safe_get (PDict kvs) ''value'') = Inr a"
    using assms(1) by (rule not_isl_obtain)
  obtain b where b: "safe_int B (safe_get (PDict kvs) ''start_year'') = Inr b"
    using assms(2) by (rule not_isl_obtain)
  obtain c where c: "safe_int B (safe_get (PDict kvs) ''end_year'') = Inr c"
    using assms(3) by (rule not_isl_obtain)
  obtain p where p: "safe_bool (safe_get (PDict kvs) ''actuals_flag'') = Inr p"
    using safe_bool_returns by blast
  obtain q where q: "safe_bool (safe_get (PDict kvs) ''pfs_flag'') = Inr q"
    using safe_bool_returns by blast
  obtain r where r: "safe_bool (safe_get (PDict kvs) ''ppc_flag'') = Inr r"
    using safe_bool_returns by blast
  note eqs = a b c p q r
  show ?thesis
    using eqs by (simp add: flatten_input_data_def as_payload_def bind_res_def idx_def)
qed

lemma flatten_event_data_dict:
  assumes "\<not> isl (safe_int B (safe_get (PDict kvs) ''year''))"
    and "\<not> isl (safe_numeric B (safe_get (PDict kvs) ''share_value''))"
    and "\<not> isl (safe_numeric B (safe_get (PDict kvs) ''erosion_rate''))"
    and "\<not> isl (safe_numeric B (safe_get (PDict kvs) ''steady_state''))"
    and "\<not> isl (safe_numeric B (safe_get (PDict kvs) ''sob_value''))"
  shows "\<exists>flat. flatten_event_data B (PDict kvs) = Inr flat
      \<and> idx flat ''evt_year'' = safe_int B (safe_get (PDict kvs) ''year'')
      \<and> idx flat ''evt_share_value'' = safe_numeric B (safe_get (PDict kvs) ''share_value'')
      \<and> idx flat ''evt_entry_quarter'' = Inr (safe_get (PDict kvs) ''entry_quarter'')
      \<and> idx flat ''evt_erosion_rate'' = safe_numeric B (safe_get (PDict kvs) ''erosion_rate'')
      \<and> idx flat ''evt_launch_date'' = Inr (safe_get (PDict kvs) ''launch_date'')
      \<and> idx flat ''evt_steady_state'' = safe_numeric B (safe_get (PDict kvs) ''steady_state'')
      \<and> idx flat ''evt_sob_value'' = safe_numeric B (safe_get (PDict kvs) ''sob_value'')
      \<and> idx flat ''event_data_full_text''
          = Inr (if kvs = [] then PNone else PStr (json_dumps B (PDict kvs)))"
proof -
  obtain a where a: "safe_int B (safe_get (PDict kvs) ''year'') = Inr a"
    using assms(1) by (rule not_isl_obtain)
  obtain b where b: "safe_numeric B (safe_get (PDict kvs) ''share_value'') = Inr b"
    using assms(2) by (rule not_isl_obtain)
  obtain c where c: "safe_numeric B (safe_get (PDict kvs) ''erosion_rate'') = Inr c"
    using assms(3) by (rule not_isl_obtain)
  obtain d where d: "safe_numeric B (safe_get (PDict kvs) ''steady_state'') = Inr d"
    using assms(4) by (rule not_isl_obtain)
  obtain e where e: "safe_numeric B (safe_get (PDict kvs) ''sob_value'') = Inr e"
    using assms(5) by (rule not_isl_obtain)
  note eqs = a b c d e
  show ?thesis
    using eqs by (simp add: flatten_event_data_def as_payload_def bind_res_def idx_def)
qed

lemma as_payload_other:
  assumes "case d of PDict kvs \<Rightarrow> False | PStr s \<Rightarrow> False | _ \<Rightarrow> True"
  shows "as_payload B d = Inr (PDict [])"
  using assms by (cases d) (simp_all add: as_payload_def)

lemma flatten_input_data_empty:
  "flatten_input_data B (PDict []) =
     Inr [(''inp_value'', PNone), (''inp_unit'', PNone), (''inp_start_year'', PNone),
          (''inp_end_year'', PNone), (''inp_input_type'', PNone), (''inp_timeframe'', PNone),
          (''inp_dosing_type'', PNone), (''inp_actuals_flag'', PNone),
          (''inp_curve_type'', PNone), (''inp_selected_output'', PNone),
          (''inp_pfs_flag'', PNone), (''inp_ppc_flag'', PNone),
          (''input_data_full_text'', PNone)]"
  by (simp add: flatten_input_data_def as_payload_def bind_res_def get_def
      safe_numeric_def safe_int_def safe_bool_def)

lemma flatten_event_data_empty:
  "flatten_event_data B (PDict []) =
     Inr [(''evt_year'', PNone), (''evt_share_value'', PNone), (''evt_entry_quarter'', PNone),
          (''evt_erosion_rate'', PNone), (''evt_launch_date'', PNone),
          (''evt_steady_state'', PNone), (''evt_sob_value'', PNone),
          (''event_data_full_text'', PNone)]"
  by (simp add: flatten_event_data_def as_payload_def bind_res_def get_def
      safe_numeric_def safe_int_def)

lemma flatten_other:
  assumes "case d of PDict kvs \<Rightarrow> False | PStr s \<Rightarrow> False | _ \<Rightarrow> True"
  shows "flatten_input_data B d = flatten_input_data B (PDict [])"
    and "flatten_event_data B d = flatten_event_data B (PDict [])"
  using as_payload_other [OF assms, of B]
  by (simp_all add: flatten_input_data_def flatten_event_data_def as_payload_def)

text \<open>
  C4 (counterexample). The claim has the raw fallback hold the serialized payload for
  every payload. For the empty dict the fallback is \<open>None\<close>, and not the text of \<open>{}\<close>;
  and a payload that is a JSON array is replaced by the empty dict, so the key \<open>note\<close>
  inside it reaches no entry of the result, the fallback included.
\<close>

theorem flatten_fallback_counterexample:
  "flatten_input_data sample_rt (PDict []) =
     Inr [(''inp_value'', PNone), (''inp_unit'', PNone), (''inp_start_year'', PNone),
          (''inp_end_year'', PNone), (''inp_input_type'', PNone), (''inp_timeframe'', PNone),
          (''inp_dosing_type'', PNone), (''inp_actuals_flag'', PNone),
          (''inp_curve_type'', PNone), (''inp_selected_output'', PNone),
          (''inp_pfs_flag'', PNone), (''inp_ppc_flag'', PNone),
          (''input_data_full_text'', PNone)]
   \<and> flatten_input_data sample_rt (PList [PDict [(''note'', PStr ''x'')]]) =
     Inr [(''inp_value'', PNone), (''inp_unit'', PNone), (''inp_start_year'', PNone),
          (''inp_end_year'', PNone), (''inp_input_type'', PNone), (''inp_timeframe'', PNone),
          (''inp_dosing_type'', PNone), (''inp_actuals_flag'', PNone),
          (''inp_curve_type'', PNone), (''inp_selected_output'', PNone),
          (''inp_pfs_flag'', PNone), (''inp_ppc_flag'', PNone),
          (''input_data_full_text'', PNone)]"
  by (simp add: flatten_input_data_def as_payload_def bind_res_def get_def
      safe_numeric_def safe_int_def safe_bool_def)

text \<open>
  C4 (amended). For a payload that is a dict, whenever the numeric and integer
  coercions of its known keys return, \<open>flatten_input_data\<close> (and \<open>flatten_event_data\<close>)
  returns a dict whose entry for each known key is the coercion of the payload's value
  for that key (\<open>None\<close> for an absent key), and whose raw fallback is \<open>json.dumps\<close> of the
  whole payload, unknown keys included, when the payload is not empty, and \<open>None\<close> when it
  is. A payload that is neither a dict nor a string is treated as the empty dict: every
  entry of the result, the raw fallback included, is \<open>None\<close>.
\<close>

theorem flatten_typed_entries_and_fallback:
  "(\<not> isl (safe_numeric B (safe_get (PDict kvs) ''value''))
      \<and> \<not> isl (safe_int B (safe_get (PDict kvs) ''start_year''))
      \<and> \<not> isl (safe_int B (safe_get (PDict kvs) ''end_year''))
    \<longrightarrow> (\<exists>flat. flatten_input_data B (PDict kvs) = Inr flat
      \<and> idx flat ''inp_value'' = safe_numeric B (safe_get (PDict kvs) ''value'')
      \<and> idx flat ''inp_unit'' = Inr (safe_get (PDict kvs) ''unit'')
      \<and> idx flat ''inp_start_year'' = safe_int B (safe_get (PDict kvs) ''start_year'')
      \<and> idx flat ''inp_end_year'' = safe_int B (safe_get (PDict kvs) ''end_year'')
      \<and> idx flat ''inp_input_type'' = Inr (safe_get (PDict kvs) ''input_type'')
      \<and> idx flat ''inp_timeframe'' = Inr (safe_get (PDict kvs) ''timeframe'')
      \<and> idx flat ''inp_dosing_type'' = Inr (safe_get (PDict kvs) ''dosing_type'')
      \<and> idx flat ''inp_actuals_flag'' = safe_bool (safe_get (PDict kvs) ''actuals_flag'')
      \<and> idx flat ''inp_curve_type'' = Inr (safe_get (PDict kvs) ''curve_type'')
      \<and> idx flat ''inp_selected_output'' = Inr (safe_get (PDict kvs) ''selected_output'')
      \<and> idx flat ''inp_pfs_flag'' = safe_bool (safe_get (PDict kvs) ''pfs_flag'')
      \<and> idx flat ''inp_ppc_flag'' = safe_bool (safe_get (PDict kvs) ''ppc_flag'')
      \<and> idx flat ''input_data_full_text''
          = Inr (if kvs = [] then PNone else PStr (json_dumps B (PDict kvs)))))
   \<and> (\<not> isl (safe_int B (safe_get (PDict evs) ''year''))
      \<and> \<not> isl (safe_numeric B (safe_get (PDict evs) ''share_value''))
      \<and> \<not> isl (safe_numeric B (safe_get (PDict evs) ''erosion_rate''))
      \<and> \<not> isl (safe_numeric B (safe_get (PDict evs) ''steady_state''))
      \<and> \<not> isl (safe_numeric B (safe_get (PDict evs) ''sob_value''))
    \<longrightarrow> (\<exists>flat. flatten_event_data B (PDict evs) = Inr flat
      \<and> idx flat ''evt_year'' = safe_int B (safe_get (PDict evs) ''year'')
      \<and> idx flat ''evt_share_value'' = safe_numeric B (safe_get (PDict evs) ''share_value'')
      \<and> idx flat ''evt_entry_quarter'' = Inr (safe_get (PDict evs) ''entry_quarter'')
      \<and> idx flat ''evt_erosion_rate'' = safe_numeric B (safe_get (PDict evs) ''erosion_rate'')
      \<and> idx flat ''evt_launch_date'' = Inr (safe_get (PDict evs) ''launch_date'')
      \<and> idx flat ''evt_steady_state'' = safe_numeric B (safe_get (PDict evs) ''steady_state'')
      \<and> idx flat ''evt_sob_value'' = safe_numeric B (safe_get (PDict evs) ''sob_value'')
      \<and> idx flat ''event_data_full_text''
          = Inr (if evs = [] then PNone else PStr (json_dumps B (PDict evs)))))
   \<and> ((case d of PDict kvs \<Rightarrow> False | PStr s \<Rightarrow> False | _ \<Rightarrow> True)
    \<longrightarrow> flatten_input_data B d = flatten_input_data B (PDict [])
      \<and> flatten_event_data B d = flatten_event_data B (PDict []))
   \<and> flatten_input_data B (PDict []) =
       Inr [(''inp_value'', PNone), (''inp_unit'', PNone), (''inp_start_year'', PNone),
            (''inp_end_year'', PNone), (''inp_input_type'', PNone), (''inp_timeframe'', PNone),
            (''inp_dosing_type'', PNone), (''inp_actuals_flag'', PNone),
            (''inp_curve_type'', PNone), (''inp_selected_output'', PNone),
            (''inp_pfs_flag'', PNone), (''inp_ppc_flag'', PNone),
            (''input_data_full_text'', PNone)]
   \<and> flatten_event_data B (PDict []) =
       Inr [(''evt_year'', PNone), (''evt_share_value'', PNone), (''evt_entry_quarter'', PNone),
            (''evt_erosion_rate'', PNone), (''evt_launch_date'', PNone),
            (''evt_steady_state'', PNone), (''evt_sob_value'', PNone),
            (''event_data_full_text'', PNone)]"
proof (intro conjI impI)
  assume "\<not> isl (safe_numeric B (safe_get (PDict kvs) ''value''))
      \<and> \<not> isl (safe_int B (safe_get (PDict kvs) ''start_year''))
      \<and> \<not> isl (safe_int B (safe_get (PDict kvs) ''end_year''))"
  then show "\<exists>flat. flatten_input_data B (PDict kvs) = Inr flat
      \<and> idx flat ''inp_value'' = safe_numeric B (safe_get (PDict kvs) ''value'')
      \<and> idx flat ''inp_unit'' = Inr (safe_get (PDict kvs) ''unit'')
      \<and> idx flat ''inp_start_year'' = safe_int B (safe_get (PDict kvs) ''start_year'')
      \<and> idx flat ''inp_end_year'' = safe_int B (safe_get (PDict kvs) ''end_year'')
      \<and> idx flat ''inp_input_type'' = Inr (safe_get (PDict kvs) ''input_type'')
      \<and> idx flat ''inp_timeframe'' = Inr (safe_get (PDict kvs) ''timeframe'')
      \<and> idx flat ''inp_dosing_type'' = Inr (safe_get (PDict kvs) ''dosing_type'')
      \<and> idx flat ''inp_actuals_flag'' = safe_bool (safe_get (PDict kvs) ''actuals_flag'')
      \<and> idx flat ''inp_curve_type'' = Inr (safe_get (PDict kvs) ''curve_type'')
      \<and> idx flat ''inp_selected_output'' = Inr (safe_get (PDict kvs) ''selected_output'')
      \<and> idx flat ''inp_pfs_flag'' = safe_bool (safe_get (PDict kvs) ''pfs_flag'')
      \<and> idx flat ''inp_ppc_flag'' = safe_bool (safe_get (PDict kvs) ''ppc_flag'')
      \<and> idx flat ''input_data_full_text''
          = Inr (if kvs = [] then PNone else PStr (json_dumps B (PDict kvs)))"
    using flatten_input_data_dict [of B kvs] by blast
next
  assume "\<not> isl (safe_int B (safe_get (PDict evs) ''year''))
      \<and> \<not> isl (safe_numeric B (safe_get (PDict evs) ''share_value''))
      \<and> \<not> isl (safe_numeric B (safe_get (PDict evs) ''erosion_rate''))
      \<and> \<not> isl (safe_numeric B (safe_get (PDict evs) ''steady_state''))
      \<and> \<not> isl (safe_numeric B (safe_get (PDict evs) ''sob_value''))"
  then show "\<exists>flat. flatten_event_data B (PDict evs) = Inr flat
      \<and> idx flat ''evt_year'' = safe_int B (safe_get (PDict evs) ''year'')
      \<and> idx flat ''evt_share_value'' = safe_numeric B (safe_get (PDict evs) ''share_value'')
      \<and> idx flat ''evt_entry_quarter'' = Inr (safe_get (PDict evs) ''entry_quarter'')
      \<and> idx flat ''evt_erosion_rate'' = safe_numeric B (safe_get (PDict evs) ''erosion_rate'')
      \<and> idx flat ''evt_launch_date'' = Inr (safe_get (PDict evs) ''launch_date'')
      \<and> idx flat ''evt_steady_state'' = safe_numeric B (safe_get (PDict evs) ''steady_state'')
      \<and> idx flat ''evt_sob_value'' = safe_numeric B (safe_get (PDict evs) ''sob_value'')
      \<and> idx flat ''event_data_full_text''
          = Inr (if evs = [] then PNone else PStr (json_dumps B (PDict evs)))"
    using flatten_event_data_dict [of B evs] by blast
next
  assume o: "case d of PDict kvs \<Rightarrow> False | PStr s \<Rightarrow> False | _ \<Rightarrow> True"
  show "flatten_input_data B d = flatten_input_data B (PDict [])"
    using o by (rule flatten_other)
  show "flatten_event_data B d = flatten_event_data B (PDict [])"
    using o by (rule flatten_other)
next
  show "flatten_input_data B (PDict []) =
       Inr [(''inp_value'', PNone), (''inp_unit'', PNone), (''inp_start_year'', PNone),
            (''inp_end_year'', PNone), (''inp_input_type'', PNone), (''inp_timeframe'', PNone),
            (''inp_dosing_type'', PNone), (''inp_actuals_flag'', PNone),
            (''inp_curve_type'', PNone), (''inp_selected_output'', PNone),
            (''inp_pfs_flag'', PNone), (''inp_ppc_flag'', PNone),
            (''input_data_full_text'', PNone)]"
    by (rule flatten_input_data_empty)
next
  show "flatten_event_data B (PDict []) =
       Inr [(''evt_year'', PNone), (''evt_share_value'', PNone), (''evt_entry_quarter'', PNone),
            (''evt_erosion_rate'', PNone), (''evt_launch_date'', PNone),
            (''evt_steady_state'', PNone), (''evt_sob_value'', PNone),
            (''event_data_full_text'', PNone)]"
    by (rule flatten_event_data_empty)
qed

theorem flatten_typed_entries_and_fallback_witness:
  "(\<exists>flat. flatten_input_data sample_rt sample_payload = Inr flat
      \<and> idx flat ''inp_value'' = Inr (PFloat (Finite 25 (- 1)))
      \<and> idx flat ''inp_unit'' = Inr (PStr ''mg'')
      \<and> idx flat ''inp_start_year'' = Inr (PInt 2025)
      \<and> idx flat ''inp_end_year'' = Inr PNone
      \<and> idx flat ''inp_pfs_flag'' = Inr (PBool True)
      \<and> idx flat ''input_data_full_text'' = Inr (PStr
           ''{\"value\": \"12.5\", \"unit\": \"mg\", \"start_year\": 2025, \"pfs_flag\": \"Yes\", \"note\": \"x\"}''))
   \<and> (\<exists>flat. flatten_event_data sample_rt sample_event_payload = Inr flat
      \<and> idx flat ''evt_year'' = Inr (PInt 2031)
      \<and> idx flat ''evt_share_value'' = Inr (PFloat (Finite 1 (- 2)))
      \<and> idx flat ''evt_launch_date'' = Inr (PStr ''2031-Q2'')
      \<and> idx flat ''event_data_full_text'' = Inr (PStr
           ''{\"year\": \"2031\", \"share_value\": 0.25, \"launch_date\": \"2031-Q2\", \"comment\": \"y\"}''))
   \<and> flatten_input_data sample_rt (PDatetime 5) = flatten_input_data sample_rt (PDict [])
   \<and> flatten_event_data sample_rt (PDatetime 5) = flatten_event_data sample_rt (PDict [])"
  using flatten_typed_entries_and_fallback [of sample_rt
      "[(''value'', PStr ''12.5''), (''unit'', PStr ''mg''), (''start_year'', PInt 2025),
        (''pfs_flag'', PStr ''Yes''), (''note'', PStr ''x'')]"
      "[(''year'', PStr ''2031''), (''share_value'', PFloat (Finite 1 (- 2))),
        (''launch_date'', PStr ''2031-Q2''), (''comment'', PStr ''y'')]"
      "PDatetime 5"]
  apply (simp add: sample_defs safe_numeric_def safe_int_def safe_bool_def get_def lower_char_def)
  apply blast
  done

section \<open>Properties of the transform functions\<close>

text \<open>
  C1. \<open>transform_node_data\<close> is not total. For a row of \<open>extract_node_data\<close> whose
  \<open>input_validation_message\<close> is a non-empty string, the expression
  \<open>str(r["validation_message"]) if r.get("input_validation_message") else None\<close> looks up
  a key the row does not have, and the call raises \<open>KeyError\<close>; the same row with no
  message is transformed.
\<close>

theorem transform_node_data_key_error:
  "transform_node_data sample_rt [node_row (PStr ''Value out of range'') PNone]
     = Inl (KeyError ''validation_message'')
   \<and> transform_node_data sample_rt [node_row PNone PNone]
     = Inr [[PStr ''nd-1'', PStr ''sc-1'', PStr ''mn-1'', PStr ''Price'',
       PStr ''input'', PStr ''Inputs'', PInt 1, PStr ''Pricing'',
       PStr ''std'', PInt 1, PStr ''main'', PDatetime 1000, PNone,
       PBool True, PStr ''ann'', PStr ''h1'', PBool False, PNone,
       PStr ''user'', PFloat (Finite 25 (- 1)), PStr ''mg'', PInt 2025,
       PNone, PNone, PNone, PNone, PNone, PNone, PNone, PBool True, PNone,
       PStr ''{\"value\": \"12.5\", \"unit\": \"mg\", \"start_year\": 2025, \"pfs_flag\": \"Yes\", \"note\": \"x\"}'']]"
  by code_simp

section \<open>Properties of the loaders\<close>

lemma executemany_target_count:
  "executemany_target fault now db sql rows = Inr (n, db') \<Longrightarrow> n = length rows"
  by (auto simp: executemany_target_def split: if_splits option.splits sum.splits)

lemma load_with_count:
  "load_with sql fault now db rows = Inr (n, db') \<Longrightarrow> n = length rows"
  by (auto simp: load_with_def dest: executemany_target_count split: if_splits)

lemma load_with_empty: "load_with sql fault now db [] = Inr (0, db)"
  by (simp add: load_with_def)

lemma loaders_are_load_with:
  assumes "load \<in> set [load_scenarios, load_node_data, load_runs, load_node_calc,
      load_event_data, load_timeline]"
  obtains sql where "load = load_with sql"
  using assms
  by (auto simp: load_scenarios_def load_node_data_def load_runs_def load_node_calc_def
      load_event_data_def load_timeline_def)

lemma paginate_Nil [simp]: "paginate n [] = []"
  by (simp add: paginate.simps)

lemma paginate_list_all:
  "list_all P xs \<Longrightarrow> list_all (list_all P) (paginate n xs)"
proof (induction n xs rule: paginate.induct)
  case (1 n xs)
  show ?case
  proof (cases "n = 0 \<or> xs = []")
    case True
    then show ?thesis by (simp add: paginate.simps)
  next
    case False
    from "1.prems" have t: "list_all P (take n xs)" and d: "list_all P (drop n xs)"
      by (auto simp: list_all_iff dest: in_set_takeD in_set_dropD)
    from "1.IH" [OF False d] t False show ?thesis
      by (subst paginate.simps) simp
  qed
qed

lemma get_new_row:
  assumes "length vals = length (s_columns st)" and "s_conflict_key st \<in> set (s_columns st)"
  shows "get (new_row st now ser vals) (s_conflict_key st) = key_of st vals"
proof -
  from assms have "s_conflict_key st \<in> fst ` set (zip (s_columns st) vals)"
    by (metis map_fst_zip set_map)
  then obtain v where "map_of (zip (s_columns st) vals) (s_conflict_key st) = Some v"
    by (metis domD dom_map_of_conv_image_fst)
  then show ?thesis
    by (simp add: get_def new_row_def key_of_def map_add_def)
qed

lemma insert_one_duplicate_DoNothing:
  assumes "s_on_conflict st = DoNothing"
    and "length vals = length (s_columns st)" and "s_conflict_key st \<in> set (s_columns st)"
    and "key_of st vals \<noteq> PNone"
    and "key_of st vals \<in> set (column_values (s_conflict_key st) tb)"
  shows "t_rows (insert_one st now tb vals) = t_rows tb"
  using assms by (simp add: insert_one_def Let_def get_new_row column_values_def)

lemma foldl_duplicates_DoNothing:
  assumes "s_on_conflict st = DoNothing" and "s_conflict_key st \<in> set (s_columns st)"
    and "list_all (\<lambda>vals. length vals = length (s_columns st) \<and> key_of st vals \<noteq> PNone
            \<and> key_of st vals \<in> set (column_values (s_conflict_key st) tb)) page"
  shows "t_rows (foldl (insert_one st now) tb page) = t_rows tb"
  using assms(3)
proof (induction page arbitrary: tb)
  case Nil
  show ?case by simp
next
  case (Cons vals page)
  let ?tb1 = "insert_one st now tb vals"
  from Cons.prems have r1: "t_rows ?tb1 = t_rows tb"
    by (simp add: insert_one_duplicate_DoNothing assms(1,2))
  then have k1: "column_values (s_conflict_key st) ?tb1 = column_values (s_conflict_key st) tb"
    by (simp add: column_values_def)
  from Cons.prems have "list_all (\<lambda>vals. length vals = length (s_columns st)
        \<and> key_of st vals \<noteq> PNone
        \<and> key_of st vals \<in> set (column_values (s_conflict_key st) ?tb1)) page"
    by (simp add: k1)
  from Cons.IH [OF this] r1 show ?case by simp
qed

lemma exec_insert_duplicates_DoNothing:
  assumes "s_on_conflict st = DoNothing" and "s_conflict_key st \<in> set (s_columns st)"
    and "list_all (\<lambda>vals. length vals = length (s_columns st) \<and> key_of st vals \<noteq> PNone
            \<and> key_of st vals \<in> set (column_values (s_conflict_key st) tb)) page"
  shows "\<exists>tb'. exec_insert st now tb page = Inr tb' \<and> t_rows tb' = t_rows tb"
proof -
  from assms(3) have "\<not> list_ex (\<lambda>vals. length vals \<noteq> length (s_columns st)) page"
    by (auto simp: list_all_iff list_ex_iff)
  with assms(1) foldl_duplicates_DoNothing [OF assms] show ?thesis
    by (simp add: exec_insert_def is_do_update_def)
qed

lemma exec_pages_duplicates_DoNothing:
  assumes "s_on_conflict st = DoNothing" and "s_conflict_key st \<in> set (s_columns st)"
    and "list_all (list_all (\<lambda>vals. length vals = length (s_columns st) \<and> key_of st vals \<noteq> PNone
            \<and> key_of st vals \<in> set (column_values (s_conflict_key st) tb))) pages"
  shows "\<exists>tb'. exec_pages st now tb pages = Inr tb' \<and> t_rows tb' = t_rows tb"
  using assms(3)
proof (induction pages arbitrary: tb)
  case Nil
  show ?case by simp
next
  case (Cons page pages)
  from Cons.prems obtain tb1 where e: "exec_insert st now tb page = Inr tb1"
    and r: "t_rows tb1 = t_rows tb"
    using exec_insert_duplicates_DoNothing [OF assms(1,2), of tb page now] by auto
  from r have k: "column_values (s_conflict_key st) tb1 = column_values (s_conflict_key st) tb"
    by (simp add: column_values_def)
  from Cons.prems have "list_all (list_all (\<lambda>vals. length vals = length (s_columns st)
        \<and> key_of st vals \<noteq> PNone
        \<and> key_of st vals \<in> set (column_values (s_conflict_key st) tb1))) pages"
    by (simp add: k)
  from Cons.IH [OF this] e r show ?case by auto
qed

lemma load_with_duplicates_DoNothing:
  assumes "s_on_conflict sql = DoNothing" and "s_conflict_key sql \<in> set (s_columns sql)"
    and "list_all (\<lambda>vals. length vals = length (s_columns sql) \<and> key_of sql vals \<noteq> PNone
            \<and> key_of sql vals \<in> set (column_values (s_conflict_key sql) (tables db (s_table sql)))) rows"
  shows "\<exists>db'. load_with sql None now db rows = Inr (length rows, db')
      \<and> t_rows (tables db' (s_table sql)) = t_rows (tables db (s_table sql))"
proof (cases "rows = []")
  case True
  then show ?thesis by (simp add: load_with_def)
next
  case False
  from exec_pages_duplicates_DoNothing [OF assms(1,2) paginate_list_all [OF assms(3)], of now 500]
  obtain tb' where "exec_pages sql now (tables db (s_table sql)) (paginate 500 rows) = Inr tb'"
    and "t_rows tb' = t_rows (tables db (s_table sql))" by auto
  with False show ?thesis
    by (simp add: load_with_def executemany_target_def)
qed


lemma exec_insert_returns:
  assumes "list_all (\<lambda>vals. length vals = length (s_columns st)) page"
    and "is_do_update st \<longrightarrow> distinct (filter (\<lambda>k. k \<noteq> PNone) (map (key_of st) page))"
  shows "\<exists>tb'. exec_insert st now tb page = Inr tb'"
proof -
  from assms(1) have "\<not> list_ex (\<lambda>vals. length vals \<noteq> length (s_columns st)) page"
    by (auto simp: list_all_iff list_ex_iff)
  with assms(2) show ?thesis
    by (simp add: exec_insert_def)
qed

lemma exec_pages_returns:
  assumes "list_all (\<lambda>page. list_all (\<lambda>vals. length vals = length (s_columns st)) page
      \<and> (is_do_update st \<longrightarrow> distinct (filter (\<lambda>k. k \<noteq> PNone) (map (key_of st) page)))) pages"
  shows "\<exists>tb'. exec_pages st now tb pages = Inr tb'"
  using assms
proof (induction pages arbitrary: tb)
  case Nil
  show ?case by simp
next
  case (Cons page pages)
  from Cons.prems obtain tb1 where "exec_insert st now tb page = Inr tb1"
    using exec_insert_returns [of st page now tb] by auto
  with Cons.IH [of tb1] Cons.prems show ?case by simp
qed

lemma distinct_filter_map_take_drop:
  assumes "distinct (filter P (map f xs))"
  shows "distinct (filter P (map f (take n xs)))" and "distinct (filter P (map f (drop n xs)))"
proof -
  have "filter P (map f xs) = filter P (map f (take n xs)) @ filter P (map f (drop n xs))"
    by (metis append_take_drop_id filter_append map_append)
  with assms show "distinct (filter P (map f (take n xs)))"
    and "distinct (filter P (map f (drop n xs)))" by simp_all
qed

lemma paginate_pages_ok:
  assumes "list_all A xs" and "D \<longrightarrow> distinct (filter P (map f xs))"
  shows "list_all (\<lambda>page. list_all A page \<and> (D \<longrightarrow> distinct (filter P (map f page))))
           (paginate n xs)"
  using assms
proof (induction n xs rule: paginate.induct)
  case (1 n xs)
  show ?case
  proof (cases "n = 0 \<or> xs = []")
    case True
    then show ?thesis by (simp add: paginate.simps)
  next
    case False
    from "1.prems"(1) have t: "list_all A (take n xs)" and d: "list_all A (drop n xs)"
      by (auto simp: list_all_iff dest: in_set_takeD in_set_dropD)
    from "1.prems"(2) have dt: "D \<longrightarrow> distinct (filter P (map f (take n xs)))"
      and dd: "D \<longrightarrow> distinct (filter P (map f (drop n xs)))"
      by (auto intro: distinct_filter_map_take_drop)
    from "1.IH" [OF False d dd] t dt False show ?thesis
      by (subst paginate.simps) simp
  qed
qed

lemma load_with_returns:
  assumes "list_all (\<lambda>vals. length vals = length (s_columns sql)) rows"
    and "is_do_update sql \<longrightarrow> distinct (filter (\<lambda>k. k \<noteq> PNone) (map (key_of sql) rows))"
  shows "\<exists>db'. load_with sql None now db rows = Inr (length rows, db')"
proof (cases "rows = []")
  case True
  then show ?thesis by (simp add: load_with_def)
next
  case False
  from exec_pages_returns [OF paginate_pages_ok [OF assms], of now "tables db (s_table sql)" 500]
  obtain tb' where "exec_pages sql now (tables db (s_table sql)) (paginate 500 rows) = Inr tb'"
    by auto
  with False show ?thesis
    by (simp add: load_with_def executemany_target_def)
qed

text \<open>
  C10. Each of the six loaders returns 0 for the empty batch, whatever the state of the
  database connection, and leaves the database as it is. When a loader returns, its
  value is the number of rows of the batch; and it does return for a batch of tuples of
  the statement's arity whose non-null conflict keys are distinct where the statement is
  a \<open>DO UPDATE\<close>. Under \<open>DO NOTHING\<close> a batch of tuples whose keys are all stored
  already leaves the stored rows as they are and still returns the size of the batch.
\<close>

theorem loaders_return_batch_size:
  assumes "(load, sql) \<in> set [(load_scenarios, sql_load_scenarios),
      (load_node_data, sql_load_node_data), (load_runs, sql_load_runs),
      (load_node_calc, sql_load_node_calc), (load_event_data, sql_load_event_data),
      (load_timeline, sql_load_timeline)]"
  shows "load fault now db [] = Inr (0, db)
    \<and> (load fault now db rows = Inr (n, db') \<longrightarrow> n = length rows)
    \<and> (list_all (\<lambda>vals. length vals = length (s_columns sql)) rows
        \<and> (is_do_update sql
             \<longrightarrow> distinct (filter (\<lambda>k. k \<noteq> PNone) (map (key_of sql) rows)))
       \<longrightarrow> (\<exists>db1. load None now db rows = Inr (length rows, db1)))
    \<and> (s_on_conflict sql = DoNothing
        \<and> list_all (\<lambda>vals. length vals = length (s_columns sql) \<and> key_of sql vals \<noteq> PNone
             \<and> key_of sql vals
                 \<in> set (column_values (s_conflict_key sql) (tables db (s_table sql)))) rows
       \<longrightarrow> (\<exists>db1. load None now db rows = Inr (length rows, db1)
             \<and> t_rows (tables db1 (s_table sql)) = t_rows (tables db (s_table sql))))"
proof -
  from assms have l: "load = load_with sql"
    by (auto simp: load_scenarios_def load_node_data_def load_runs_def load_node_calc_def
        load_event_data_def load_timeline_def)
  from assms have k: "s_conflict_key sql \<in> set (s_columns sql)"
    by (auto simp: sql_load_scenarios_def sql_load_node_data_def sql_load_runs_def
        sql_load_node_calc_def sql_load_event_data_def sql_load_timeline_def)
  show ?thesis
    unfolding l
    using load_with_empty [of sql fault now db] load_with_count [of sql fault now db rows n db']
      load_with_returns [of sql rows now db]
      load_with_duplicates_DoNothing [OF _ k, of db rows now]
    by blast
qed

theorem loaders_return_batch_size_witness:
  "load_node_calc (Some (OtherError ''connection refused'')) 100 seeded_db [] = Inr (0, seeded_db)
   \<and> (\<exists>db1. load_node_calc None 100 seeded_db [calc_tuple] = Inr (1, db1)
        \<and> column_values ''source_id'' (tables db1 ''fact_node_calc_results'') = [PStr ''nc-1'']
        \<and> (\<exists>db2. load_node_calc None 200 db1 [calc_tuple, calc_tuple] = Inr (2, db2)
              \<and> t_rows (tables db2 ''fact_node_calc_results'')
                  = t_rows (tables db1 ''fact_node_calc_results'')))"
proof -
  have m: "(load_node_calc, sql_load_node_calc) \<in> set [(load_scenarios, sql_load_scenarios),
      (load_node_data, sql_load_node_data), (load_runs, sql_load_runs),
      (load_node_calc, sql_load_node_calc), (load_event_data, sql_load_event_data),
      (load_timeline, sql_load_timeline)]"
    by simp
  have e: "load_node_calc (Some (OtherError ''connection refused'')) 100 seeded_db []
      = Inr (0, seeded_db)"
    using loaders_return_batch_size [OF m, of "Some (OtherError ''connection refused'')" 100
        seeded_db "[]" 0 seeded_db] by blast
  have a: "list_all (\<lambda>vals. length vals = length (s_columns sql_load_node_calc)) [calc_tuple]"
    by (simp add: sql_load_node_calc_def calc_tuple_def)
  have nd: "\<not> is_do_update sql_load_node_calc"
    by (simp add: is_do_update_def sql_load_node_calc_def)
  from loaders_return_batch_size [OF m, of None 100 seeded_db "[calc_tuple]" 0 seeded_db] a nd
  obtain db1 where l1: "load_node_calc None 100 seeded_db [calc_tuple] = Inr (1, db1)"
    by auto
  have "case load_node_calc None 100 seeded_db [calc_tuple] of
          Inl e \<Rightarrow> False
        | Inr r \<Rightarrow> column_values ''source_id'' (tables (snd r) ''fact_node_calc_results'')
                    = [PStr ''nc-1'']"
    by code_simp
  with l1 have k1: "column_values ''source_id'' (tables db1 ''fact_node_calc_results'') = [PStr ''nc-1'']"
    by simp
  have dup: "s_on_conflict sql_load_node_calc = DoNothing
        \<and> list_all (\<lambda>vals. length vals = length (s_columns sql_load_node_calc)
             \<and> key_of sql_load_node_calc vals \<noteq> PNone
             \<and> key_of sql_load_node_calc vals
                 \<in> set (column_values (s_conflict_key sql_load_node_calc)
                      (tables db1 (s_table sql_load_node_calc)))) [calc_tuple, calc_tuple]"
    using k1 by (simp add: sql_load_node_calc_def calc_tuple_def key_of_def get_def)
  from loaders_return_batch_size [OF m, of None 200 db1 "[calc_tuple, calc_tuple]" 0 db1] dup
  obtain db2 where "load_node_calc None 200 db1 [calc_tuple, calc_tuple] = Inr (2, db2)"
    and "t_rows (tables db2 ''fact_node_calc_results'') = t_rows (tables db1 ''fact_node_calc_results'')"
    by (auto simp: sql_load_node_calc_def)
  with e l1 k1 show ?thesis by blast
qed

subsection \<open>Frame of the versioned upsert\<close>

lemma frame_of_conflict_update:
  assumes "set cs \<union> set ns \<subseteq> set S"
  shows "frame_of S (conflict_update cs ns now ex r) = frame_of S r"
  using assms by (induction r) (auto simp: frame_of_def conflict_update_def)

lemma map_of_conflict_update_other:
  assumes "c \<notin> set cs" and "c \<notin> set ns"
  shows "map_of (conflict_update cs ns now ex r) c = map_of r c"
  using assms by (induction r) (auto simp: conflict_update_def)

lemma get_conflict_update_other:
  assumes "c \<notin> set cs" and "c \<notin> set ns"
  shows "get (conflict_update cs ns now ex r) c = get r c"
  using assms by (simp add: get_def map_of_conflict_update_other)

lemma map_of_conflict_update_set:
  assumes "c \<in> set cs" and "c \<in> fst ` set r"
  shows "map_of (conflict_update cs ns now ex r) c = Some (get ex c)"
  using assms by (induction r) (auto simp: conflict_update_def)

lemma map_of_conflict_update_now:
  assumes "c \<notin> set cs" and "c \<in> set ns" and "c \<in> fst ` set r"
  shows "map_of (conflict_update cs ns now ex r) c = Some (PDatetime now)"
  using assms by (induction r) (auto simp: conflict_update_def)

text \<open>
  \<open>kept S old new\<close>: the stored rows \<open>old\<close> are still there, in their places, with
  every column outside \<open>S\<close> as it was.
\<close>

lemma kept_trans:
  assumes ab: "length a \<le> length b \<and> map F (take (length a) b) = map F a"
    and bc: "length b \<le> length c \<and> map F (take (length b) c) = map F b"
  shows "length a \<le> length c \<and> map F (take (length a) c) = map F a"
proof
  from ab bc show "length a \<le> length c" by simp
  have "take (length a) c = take (length a) (take (length b) c)"
    using ab by (simp add: min_def)
  then have "map F (take (length a) c) = take (length a) (map F (take (length b) c))"
    by (simp add: take_map)
  also have "\<dots> = take (length a) (map F b)" using bc by simp
  also have "\<dots> = map F (take (length a) b)" by (simp add: take_map)
  finally show "map F (take (length a) c) = map F a" using ab by simp
qed

lemma insert_one_kept:
  assumes "case s_on_conflict st of DoNothing \<Rightarrow> True
           | DoUpdate cs ns \<Rightarrow> set cs \<union> set ns \<subseteq> set S"
  shows "length (t_rows tb) \<le> length (t_rows (insert_one st now tb vals))
    \<and> map (frame_of S) (take (length (t_rows tb)) (t_rows (insert_one st now tb vals)))
        = map (frame_of S) (t_rows tb)"
proof (cases "s_on_conflict st")
  case DoNothing
  then show ?thesis by (simp add: insert_one_def Let_def)
next
  case (DoUpdate cs ns)
  with assms have "set cs \<union> set ns \<subseteq> set S" by simp
  then have "\<And>ex r. frame_of S (conflict_update cs ns now ex r) = frame_of S r"
    by (rule frame_of_conflict_update)
  with DoUpdate show ?thesis by (simp add: insert_one_def Let_def)
qed

lemma foldl_insert_kept:
  assumes "case s_on_conflict st of DoNothing \<Rightarrow> True
           | DoUpdate cs ns \<Rightarrow> set cs \<union> set ns \<subseteq> set S"
  shows "length (t_rows tb) \<le> length (t_rows (foldl (insert_one st now) tb page))
    \<and> map (frame_of S) (take (length (t_rows tb)) (t_rows (foldl (insert_one st now) tb page)))
        = map (frame_of S) (t_rows tb)"
proof (induction page arbitrary: tb)
  case Nil
  show ?case by simp
next
  case (Cons vals page)
  let ?tb1 = "insert_one st now tb vals"
  note one = insert_one_kept [OF assms, of tb now vals]
  note rest = Cons.IH [of ?tb1]
  from kept_trans [OF one rest] show ?case by simp
qed

lemma exec_pages_kept:
  assumes "case s_on_conflict st of DoNothing \<Rightarrow> True
           | DoUpdate cs ns \<Rightarrow> set cs \<union> set ns \<subseteq> set S"
    and "exec_pages st now tb pages = Inr tb'"
  shows "length (t_rows tb) \<le> length (t_rows tb')
    \<and> map (frame_of S) (take (length (t_rows tb)) (t_rows tb')) = map (frame_of S) (t_rows tb)"
  using assms(2)
proof (induction pages arbitrary: tb)
  case Nil
  then show ?case by simp
next
  case (Cons page pages)
  from Cons.prems obtain tb1 where e: "exec_insert st now tb page = Inr tb1"
    and r: "exec_pages st now tb1 pages = Inr tb'"
    by (auto split: sum.splits)
  from e have tb1: "tb1 = foldl (insert_one st now) tb page"
    by (auto simp: exec_insert_def split: if_splits)
  have one: "length (t_rows tb) \<le> length (t_rows tb1)
      \<and> map (frame_of S) (take (length (t_rows tb)) (t_rows tb1)) = map (frame_of S) (t_rows tb)"
    unfolding tb1 by (rule foldl_insert_kept [OF assms(1)])
  note rest = Cons.IH [OF r]
  show ?case by (rule kept_trans [OF one rest])
qed


lemma load_with_table:
  assumes "load_with sql fault now db rows = Inr (n, db')"
  shows "rows = [] \<and> db' = db
    \<or> (\<exists>tb'. exec_pages sql now (tables db (s_table sql)) (paginate 500 rows) = Inr tb'
          \<and> db' = db\<lparr>tables := (tables db)(s_table sql := tb')\<rparr>)"
  using assms
  by (auto simp: load_with_def executemany_target_def split: if_splits option.splits sum.splits)

lemma load_with_kept:
  assumes "case s_on_conflict sql of DoNothing \<Rightarrow> True
           | DoUpdate cs ns \<Rightarrow> set cs \<union> set ns \<subseteq> set S"
    and "load_with sql fault now db rows = Inr (n, db')"
  shows "map (frame_of S) (take (length (t_rows (tables db (s_table sql))))
            (t_rows (tables db' (s_table sql))))
        = map (frame_of S) (t_rows (tables db (s_table sql)))"
  using load_with_table [OF assms(2)] exec_pages_kept [OF assms(1)]
  by auto


lemma insert_one_key_column:
  assumes "case s_on_conflict st of DoNothing \<Rightarrow> True
           | DoUpdate cs ns \<Rightarrow> s_conflict_key st \<notin> set cs \<and> s_conflict_key st \<notin> set ns"
  shows "column_values (s_conflict_key st) (insert_one st now tb vals)
           = column_values (s_conflict_key st) tb
    \<or> (\<exists>k'. column_values (s_conflict_key st) (insert_one st now tb vals)
                = column_values (s_conflict_key st) tb @ [k']
            \<and> (k' = PNone \<or> k' \<notin> set (column_values (s_conflict_key st) tb)))"
proof (cases "s_on_conflict st")
  case DoNothing
  then show ?thesis
    by (auto simp: insert_one_def Let_def column_values_def)
next
  case (DoUpdate cs ns)
  with assms have "s_conflict_key st \<notin> set cs" and "s_conflict_key st \<notin> set ns"
    by simp_all
  then have "\<And>ex r. get (conflict_update cs ns now ex r) (s_conflict_key st)
      = get r (s_conflict_key st)"
    by (rule get_conflict_update_other)
  with DoUpdate show ?thesis
    by (auto simp: insert_one_def Let_def column_values_def)
qed

lemma insert_one_no_second_row:
  assumes "case s_on_conflict st of DoNothing \<Rightarrow> True
           | DoUpdate cs ns \<Rightarrow> s_conflict_key st \<notin> set cs \<and> s_conflict_key st \<notin> set ns"
    and "k \<noteq> PNone" and "k \<in> set (column_values (s_conflict_key st) tb)"
  shows "k \<in> set (column_values (s_conflict_key st) (insert_one st now tb vals))
    \<and> count_list (column_values (s_conflict_key st) (insert_one st now tb vals)) k
        = count_list (column_values (s_conflict_key st) tb) k"
  using insert_one_key_column [OF assms(1), of now tb vals] assms(2,3)
  by auto

lemma foldl_no_second_row:
  assumes "case s_on_conflict st of DoNothing \<Rightarrow> True
           | DoUpdate cs ns \<Rightarrow> s_conflict_key st \<notin> set cs \<and> s_conflict_key st \<notin> set ns"
    and "k \<noteq> PNone" and "k \<in> set (column_values (s_conflict_key st) tb)"
  shows "k \<in> set (column_values (s_conflict_key st) (foldl (insert_one st now) tb page))
    \<and> count_list (column_values (s_conflict_key st) (foldl (insert_one st now) tb page)) k
        = count_list (column_values (s_conflict_key st) tb) k"
  using assms(3)
proof (induction page arbitrary: tb)
  case Nil
  then show ?case by simp
next
  case (Cons vals page)
  note one = insert_one_no_second_row [OF assms(1,2) Cons.prems, of now vals]
  from one Cons.IH [of "insert_one st now tb vals"] show ?case by simp
qed

lemma exec_pages_no_second_row:
  assumes "case s_on_conflict st of DoNothing \<Rightarrow> True
           | DoUpdate cs ns \<Rightarrow> s_conflict_key st \<notin> set cs \<and> s_conflict_key st \<notin> set ns"
    and "k \<noteq> PNone" and "k \<in> set (column_values (s_conflict_key st) tb)"
    and "exec_pages st now tb pages = Inr tb'"
  shows "k \<in> set (column_values (s_conflict_key st) tb')
    \<and> count_list (column_values (s_conflict_key st) tb') k
        = count_list (column_values (s_conflict_key st) tb) k"
  using assms(3,4)
proof (induction pages arbitrary: tb)
  case Nil
  then show ?case by simp
next
  case (Cons page pages)
  from Cons.prems(2) obtain tb1 where e: "exec_insert st now tb page = Inr tb1"
    and r: "exec_pages st now tb1 pages = Inr tb'"
    by (auto split: sum.splits)
  from e have tb1: "tb1 = foldl (insert_one st now) tb page"
    by (auto simp: exec_insert_def split: if_splits)
  have one: "k \<in> set (column_values (s_conflict_key st) tb1)
      \<and> count_list (column_values (s_conflict_key st) tb1) k
          = count_list (column_values (s_conflict_key st) tb) k"
    unfolding tb1 by (rule foldl_no_second_row [OF assms(1,2) Cons.prems(1)])
  from one Cons.IH [OF _ r] show ?case by simp
qed

lemma load_with_no_second_row:
  assumes "case s_on_conflict sql of DoNothing \<Rightarrow> True
           | DoUpdate cs ns \<Rightarrow> s_conflict_key sql \<notin> set cs \<and> s_conflict_key sql \<notin> set ns"
    and "k \<noteq> PNone" and "k \<in> set (column_values (s_conflict_key sql) (tables db (s_table sql)))"
    and "load_with sql fault now db rows = Inr (n, db')"
  shows "count_list (column_values (s_conflict_key sql) (tables db' (s_table sql))) k
        = count_list (column_values (s_conflict_key sql) (tables db (s_table sql))) k"
  using load_with_table [OF assms(4)] exec_pages_no_second_row [OF assms(1,2,3)]
  by auto

lemma get_new_row_column:
  assumes "length vals = length (s_columns st)" and "c \<in> set (s_columns st)"
  shows "get (new_row st now ser vals) c = get (zip (s_columns st) vals) c"
proof -
  from assms have "c \<in> fst ` set (zip (s_columns st) vals)"
    by (metis map_fst_zip set_map)
  then obtain v where "map_of (zip (s_columns st) vals) c = Some v"
    by (metis domD dom_map_of_conv_image_fst)
  then show ?thesis
    by (simp add: get_def new_row_def map_add_def)
qed

lemma paginate_single: "paginate 500 [x] = [[x]]"
  by (simp add: paginate.simps)

lemma load_with_reoffer:
  assumes u: "s_on_conflict sql = DoUpdate cs ns"
    and ar: "length vals = length (s_columns sql)"
    and kc: "s_conflict_key sql \<in> set (s_columns sql)"
    and nn: "key_of sql vals \<noteq> PNone"
    and i: "i < length (t_rows (tables db (s_table sql)))"
    and ki: "get (t_rows (tables db (s_table sql)) ! i) (s_conflict_key sql) = key_of sql vals"
  shows "\<exists>db1. load_with sql None now db [vals] = Inr (1, db1)
    \<and> length (t_rows (tables db1 (s_table sql))) = length (t_rows (tables db (s_table sql)))
    \<and> t_rows (tables db1 (s_table sql)) ! i
        = conflict_update cs ns now (new_row sql now (t_serial (tables db (s_table sql))) vals)
            (t_rows (tables db (s_table sql)) ! i)"
proof -
  let ?tb = "tables db (s_table sql)"
  from i ki have mem: "key_of sql vals \<in> set (map (\<lambda>r. get r (s_conflict_key sql)) (t_rows ?tb))"
    by (metis (mono_tags, lifting) length_map nth_map nth_mem)
  have up: "is_do_update sql" using u by (simp add: is_do_update_def)
  have ex: "exec_insert sql now ?tb [vals] = Inr (insert_one sql now ?tb vals)"
    using ar nn by (simp add: exec_insert_def)
  have rows: "t_rows (insert_one sql now ?tb vals)
      = map (\<lambda>r. if get r (s_conflict_key sql) = key_of sql vals
                  then conflict_update cs ns now (new_row sql now (t_serial ?tb) vals) r else r)
          (t_rows ?tb)"
    using u nn mem by (simp add: insert_one_def Let_def get_new_row [OF ar kc])
  have "load_with sql None now db [vals]
      = Inr (1, db\<lparr>tables := (tables db)(s_table sql := insert_one sql now ?tb vals)\<rparr>)"
    by (simp add: load_with_def executemany_target_def paginate_single ex)
  moreover have "length (t_rows (insert_one sql now ?tb vals)) = length (t_rows ?tb)"
    by (simp add: rows)
  moreover have "t_rows (insert_one sql now ?tb vals) ! i
      = conflict_update cs ns now (new_row sql now (t_serial ?tb) vals) (t_rows ?tb ! i)"
    using i ki by (simp add: rows)
  ultimately show ?thesis by simp
qed

text \<open>
  C7 (counterexample). The claim has a re-offered record change the version-closing
  fields only. The statement also sets \<open>etl_loaded_at = NOW()\<close>: the row loaded at time
  100 and offered again, unchanged, at time 200 is still the only row of its key, and its
  \<open>etl_loaded_at\<close> has gone from 100 to 200.
\<close>

theorem reoffer_sets_load_timestamp_counterexample:
  "column_values ''etl_loaded_at'' (tables loaded_db ''fact_node_input_history'')
     = [PDatetime 100]
   \<and> column_values ''etl_loaded_at''
        (tables (after_load loaded_db (load_node_data None 200 loaded_db [node_tuple PNone]))
           ''fact_node_input_history'')
     = [PDatetime 200]
   \<and> column_values ''source_id''
        (tables (after_load loaded_db (load_node_data None 200 loaded_db [node_tuple PNone]))
           ''fact_node_input_history'')
     = [PStr ''nd-1'']"
  by code_simp

text \<open>
  C7 (amended). For \<open>load_node_data\<close> and \<open>load_event_data\<close>: whatever batch is loaded,
  every row stored before is still in its place with every column other than
  \<open>version_ended_at\<close>, \<open>is_current_version\<close>, the validation state (\<open>input_validated\<close> or
  \<open>is_validated\<close>, and \<open>validation_message\<close>) and the load timestamp \<open>etl_loaded_at\<close> as it
  was, and a non-null \<open>source_id\<close> that was stored is stored exactly as often as before.
  Re-offering one tuple whose \<open>source_id\<close> a stored row has returns 1, adds no row, and
  sets that row's version-closing and validation columns to the tuple's values and its
  \<open>etl_loaded_at\<close> to the current time.
\<close>

theorem versioned_reoffer_frame:
  assumes "(load, sql, T, validated) \<in> set
      [(load_node_data, sql_load_node_data, ''fact_node_input_history'', ''input_validated''),
       (load_event_data, sql_load_event_data, ''fact_event_input_history'', ''is_validated'')]"
  shows "(load fault now db batch = Inr (n, db') \<longrightarrow>
        map (frame_of [''version_ended_at'', ''is_current_version'', validated,
                       ''validation_message'', ''etl_loaded_at''])
            (take (length (t_rows (tables db T))) (t_rows (tables db' T)))
          = map (frame_of [''version_ended_at'', ''is_current_version'', validated,
                           ''validation_message'', ''etl_loaded_at''])
              (t_rows (tables db T))
        \<and> (k \<noteq> PNone \<and> k \<in> set (column_values ''source_id'' (tables db T))
            \<longrightarrow> count_list (column_values ''source_id'' (tables db' T)) k
                  = count_list (column_values ''source_id'' (tables db T)) k))
    \<and> (length vals = length (s_columns sql) \<and> key_of sql vals \<noteq> PNone
        \<and> i < length (t_rows (tables db T))
        \<and> get (t_rows (tables db T) ! i) ''source_id'' = key_of sql vals
       \<longrightarrow> (\<exists>db1. load None now db [vals] = Inr (1, db1)
              \<and> length (t_rows (tables db1 T)) = length (t_rows (tables db T))
              \<and> (c \<in> set [''version_ended_at'', ''is_current_version'', validated,
                            ''validation_message'']
                  \<and> c \<in> fst ` set (t_rows (tables db T) ! i)
                  \<longrightarrow> get (t_rows (tables db1 T) ! i) c = get (zip (s_columns sql) vals) c)
              \<and> (''etl_loaded_at'' \<in> fst ` set (t_rows (tables db T) ! i)
                  \<longrightarrow> get (t_rows (tables db1 T) ! i) ''etl_loaded_at'' = PDatetime now)))"
proof -
  let ?cs = "[''version_ended_at'', ''is_current_version'', validated, ''validation_message'']"
  let ?S = "[''version_ended_at'', ''is_current_version'', validated, ''validation_message'',
             ''etl_loaded_at'']"
  from assms have l: "load = load_with sql"
    by (auto simp: load_node_data_def load_event_data_def)
  from assms have u: "s_on_conflict sql = DoUpdate ?cs [''etl_loaded_at'']"
    by (auto simp: sql_load_node_data_def sql_load_event_data_def)
  from assms have t: "s_table sql = T"
    by (auto simp: sql_load_node_data_def sql_load_event_data_def)
  from assms have key: "s_conflict_key sql = ''source_id''"
    by (auto simp: sql_load_node_data_def sql_load_event_data_def)
  from assms have kc: "s_conflict_key sql \<in> set (s_columns sql)"
    by (auto simp: sql_load_node_data_def sql_load_event_data_def)
  from assms have cols: "set ?cs \<subseteq> set (s_columns sql)"
    by (auto simp: sql_load_node_data_def sql_load_event_data_def)
  from assms have nv: "validated \<noteq> ''etl_loaded_at''" by auto
  have f1: "case s_on_conflict sql of DoNothing \<Rightarrow> True
            | DoUpdate cs ns \<Rightarrow> set cs \<union> set ns \<subseteq> set ?S"
    by (simp add: u)
  from assms have f2: "case s_on_conflict sql of DoNothing \<Rightarrow> True
            | DoUpdate cs ns \<Rightarrow> s_conflict_key sql \<notin> set cs \<and> s_conflict_key sql \<notin> set ns"
    by (auto simp: u key)
  have frame: "map (frame_of ?S) (take (length (t_rows (tables db T))) (t_rows (tables db' T)))
      = map (frame_of ?S) (t_rows (tables db T))"
    if "load fault now db batch = Inr (n, db')"
    using load_with_kept [OF f1, of fault now db batch n db'] that by (simp add: l t)
  have count: "count_list (column_values ''source_id'' (tables db' T)) k
      = count_list (column_values ''source_id'' (tables db T)) k"
    if "load fault now db batch = Inr (n, db')" and "k \<noteq> PNone"
      and "k \<in> set (column_values ''source_id'' (tables db T))"
    using load_with_no_second_row [OF f2, of k db fault now batch n db'] that
    by (simp add: l t key)
  have reoffer: "\<exists>db1. load None now db [vals] = Inr (1, db1)
      \<and> length (t_rows (tables db1 T)) = length (t_rows (tables db T))
      \<and> (c \<in> set ?cs \<and> c \<in> fst ` set (t_rows (tables db T) ! i)
          \<longrightarrow> get (t_rows (tables db1 T) ! i) c = get (zip (s_columns sql) vals) c)
      \<and> (''etl_loaded_at'' \<in> fst ` set (t_rows (tables db T) ! i)
          \<longrightarrow> get (t_rows (tables db1 T) ! i) ''etl_loaded_at'' = PDatetime now)"
    if ar: "length vals = length (s_columns sql)" and nn: "key_of sql vals \<noteq> PNone"
      and i: "i < length (t_rows (tables db T))"
      and ki: "get (t_rows (tables db T) ! i) ''source_id'' = key_of sql vals"
  proof -
    from load_with_reoffer [OF u ar kc nn, of i db now] i ki
    obtain db1 where r: "load_with sql None now db [vals] = Inr (1, db1)"
      and len: "length (t_rows (tables db1 T)) = length (t_rows (tables db T))"
      and row: "t_rows (tables db1 T) ! i
          = conflict_update ?cs [''etl_loaded_at''] now
              (new_row sql now (t_serial (tables db T)) vals) (t_rows (tables db T) ! i)"
      by (auto simp: t key)
    have "get (t_rows (tables db1 T) ! i) c = get (zip (s_columns sql) vals) c"
      if c: "c \<in> set ?cs" and p: "c \<in> fst ` set (t_rows (tables db T) ! i)"
    proof -
      from c cols have "c \<in> set (s_columns sql)" by blast
      then have "get (new_row sql now (t_serial (tables db T)) vals) c
          = get (zip (s_columns sql) vals) c"
        by (rule get_new_row_column [OF ar])
      with map_of_conflict_update_set [OF c p] show ?thesis
        by (simp add: row get_def)
    qed
    moreover have "get (t_rows (tables db1 T) ! i) ''etl_loaded_at'' = PDatetime now"
      if p: "''etl_loaded_at'' \<in> fst ` set (t_rows (tables db T) ! i)"
    proof -
      have "''etl_loaded_at'' \<notin> set ?cs" using nv by auto
      from map_of_conflict_update_now [OF this _ p, of "[''etl_loaded_at'']"] show ?thesis
        by (simp add: row get_def)
    qed
    ultimately show ?thesis using r len by (auto simp: l)
  qed
  from frame count reoffer show ?thesis by blast
qed

theorem versioned_reoffer_frame_witness:
  "get (t_rows (tables loaded_db ''fact_node_input_history'') ! 0) ''is_current_version''
     = PBool True
   \<and> (\<exists>db1. load_node_data None 200 loaded_db [node_tuple (PDatetime 2000)] = Inr (1, db1)
        \<and> length (t_rows (tables db1 ''fact_node_input_history'')) = 1
        \<and> get (t_rows (tables db1 ''fact_node_input_history'') ! 0) ''version_ended_at''
            = PDatetime 2000
        \<and> get (t_rows (tables db1 ''fact_node_input_history'') ! 0) ''is_current_version''
            = PBool False
        \<and> get (t_rows (tables db1 ''fact_node_input_history'') ! 0) ''etl_loaded_at''
            = PDatetime 200
        \<and> map (frame_of [''version_ended_at'', ''is_current_version'', ''input_validated'',
                          ''validation_message'', ''etl_loaded_at''])
              (t_rows (tables db1 ''fact_node_input_history''))
            = map (frame_of [''version_ended_at'', ''is_current_version'', ''input_validated'',
                             ''validation_message'', ''etl_loaded_at''])
                (t_rows (tables loaded_db ''fact_node_input_history''))
        \<and> count_list (column_values ''source_id'' (tables db1 ''fact_node_input_history''))
              (PStr ''nd-1'') = 1)"
proof -
  let ?T = "''fact_node_input_history''"
  let ?vals = "node_tuple (PDatetime 2000)"
  have m: "(load_node_data, sql_load_node_data, ?T, ''input_validated'') \<in> set
      [(load_node_data, sql_load_node_data, ''fact_node_input_history'', ''input_validated''),
       (load_event_data, sql_load_event_data, ''fact_event_input_history'', ''is_validated'')]"
    by simp
  have before: "get (t_rows (tables loaded_db ?T) ! 0) ''is_current_version'' = PBool True"
    by code_simp
  have len0: "length (t_rows (tables loaded_db ?T)) = 1"
    by code_simp
  have keys0: "column_values ''source_id'' (tables loaded_db ?T) = [PStr ''nd-1'']"
    by code_simp
  have ar: "length ?vals = length (s_columns sql_load_node_data)"
    by code_simp
  have kv: "key_of sql_load_node_data ?vals = PStr ''nd-1''"
    by code_simp
  have ki: "get (t_rows (tables loaded_db ?T) ! 0) ''source_id'' = PStr ''nd-1''"
    by code_simp
  have c1: "''version_ended_at'' \<in> fst ` set (t_rows (tables loaded_db ?T) ! 0)"
    by code_simp
  have c2: "''is_current_version'' \<in> fst ` set (t_rows (tables loaded_db ?T) ! 0)"
    by code_simp
  have c3: "''etl_loaded_at'' \<in> fst ` set (t_rows (tables loaded_db ?T) ! 0)"
    by code_simp
  have v1: "get (zip (s_columns sql_load_node_data) ?vals) ''version_ended_at'' = PDatetime 2000"
    by code_simp
  have v2: "get (zip (s_columns sql_load_node_data) ?vals) ''is_current_version'' = PBool False"
    by code_simp
  note t1 = versioned_reoffer_frame [OF m, where vals = ?vals and i = 0 and db = loaded_db
      and now = 200 and c = "''version_ended_at''", THEN conjunct2]
  note t2 = versioned_reoffer_frame [OF m, where vals = ?vals and i = 0 and db = loaded_db
      and now = 200 and c = "''is_current_version''", THEN conjunct2]
  from t1 ar kv len0 ki c1 c3 v1
  obtain db1 where l: "load_node_data None 200 loaded_db [?vals] = Inr (1, db1)"
    and len1: "length (t_rows (tables db1 ?T)) = 1"
    and e1: "get (t_rows (tables db1 ?T) ! 0) ''version_ended_at'' = PDatetime 2000"
    and e3: "get (t_rows (tables db1 ?T) ! 0) ''etl_loaded_at'' = PDatetime 200"
    by auto
  from t2 ar kv len0 ki c2 v2 l
  have e2: "get (t_rows (tables db1 ?T) ! 0) ''is_current_version'' = PBool False"
    by auto
  note t3 = versioned_reoffer_frame [OF m, where fault = None and now = 200 and db = loaded_db
      and batch = "[?vals]" and n = 1 and db' = db1 and k = "PStr ''nd-1''", THEN conjunct1]
  from t3 l len0 len1
  have frame: "map (frame_of [''version_ended_at'', ''is_current_version'', ''input_validated'',
                          ''validation_message'', ''etl_loaded_at''])
              (t_rows (tables db1 ?T))
            = map (frame_of [''version_ended_at'', ''is_current_version'', ''input_validated'',
                             ''validation_message'', ''etl_loaded_at''])
                (t_rows (tables loaded_db ?T))"
    by auto
  from t3 l keys0
  have cnt: "count_list (column_values ''source_id'' (tables db1 ?T)) (PStr ''nd-1'') = 1"
    by auto
  from before l len1 e1 e2 e3 frame cnt show ?thesis by blast
qed

section \<open>Properties of the watermark\<close>

text \<open>
  C5. When the read succeeds, \<open>get_watermark\<close> returns \<open>last_fetched_at\<close> minus the 90
  seconds of \<open>OVERLAP_SEC\<close> if the entity has a row in \<open>etl_watermark\<close>, and 2020-01-01
  (18262 days after 1970-01-01) if it has none.
\<close>

theorem get_watermark_overlap_or_default:
  "get_watermark None db table_name =
     Inr (case etl_watermark db table_name of
            Some row \<Rightarrow> last_fetched_at row - OVERLAP_SEC
          | None \<Rightarrow> default_epoch)
   \<and> OVERLAP_SEC = 90
   \<and> default_epoch = 18262 * 86400"
  by (simp add: get_watermark_def OVERLAP_SEC_def default_epoch_def split: option.splits)

section \<open>Properties of the cycle\<close>

subsection \<open>What one call reads and writes\<close>

lemma get_watermark_local:
  assumes "etl_watermark db1 t = etl_watermark db2 t"
  shows "get_watermark f db1 t = get_watermark f db2 t"
  using assms by (cases f) (simp_all add: get_watermark_def)

lemma load_with_frame:
  assumes "load_with sql f now db rows = Inr (n, db')"
  shows "etl_watermark db' = etl_watermark db"
    and "T' \<noteq> s_table sql \<Longrightarrow> tables db' T' = tables db T'"
  using load_with_table [OF assms] by auto

lemma load_with_local:
  assumes "tables db1 (s_table sql) = tables db2 (s_table sql)"
  shows "(\<exists>e. load_with sql f now db1 rows = Inl e \<and> load_with sql f now db2 rows = Inl e)
    \<or> (\<exists>n d1 d2. load_with sql f now db1 rows = Inr (n, d1)
          \<and> load_with sql f now db2 rows = Inr (n, d2)
          \<and> tables d1 (s_table sql) = tables d2 (s_table sql))"
  using assms
  by (auto simp: load_with_def executemany_target_def split: option.splits sum.splits)

lemma update_watermark_frame:
  assumes "update_watermark f now db t k = Inr db'"
  shows "tables db' = tables db"
    and "t' \<noteq> t \<Longrightarrow> etl_watermark db' t' = etl_watermark db t'"
  using assms
  by (auto simp: update_watermark_def split: option.splits if_splits)

lemma update_watermark_row:
  assumes "update_watermark f now db t k = Inr db'" and "etl_watermark db t = Some w"
  shows "etl_watermark db' t = Some (w\<lparr>last_fetched_at := now, rows_last_run := k,
      last_run_at := Some now, total_rows_ever := total_rows_ever w + k\<rparr>)"
  using assms
  by (auto simp: update_watermark_def split: option.splits if_splits)

lemma update_watermark_local:
  assumes "etl_watermark db1 t = etl_watermark db2 t"
  shows "(\<exists>e. update_watermark f now db1 t k = Inl e \<and> update_watermark f now db2 t k = Inl e)
    \<or> (\<exists>d1 d2. update_watermark f now db1 t k = Inr d1
          \<and> update_watermark f now db2 t k = Inr d2
          \<and> etl_watermark d1 t = etl_watermark d2 t)"
  using assms
  by (auto simp: update_watermark_def split: option.splits)


subsection \<open>One block of the cycle\<close>

text \<open>The ways through the body of a \<open>try\<close> block.\<close>

lemma etl_try_outcomes:
  assumes "etl_try E u st = (st1, x)"
  shows "(\<exists>e. get_watermark (read_fault E) (c_db st) (u_table u) = Inl e \<and> st1 = st \<and> x = Some e)
    \<or> (\<exists>since e. get_watermark (read_fault E) (c_db st) (u_table u) = Inr since
          \<and> source E since = Inl e \<and> st1 = st \<and> x = Some e)
    \<or> (\<exists>since rows e. get_watermark (read_fault E) (c_db st) (u_table u) = Inr since
          \<and> source E since = Inr rows \<and> rows \<noteq> []
          \<and> u_transform u rows = Inl e \<and> st1 = st \<and> x = Some e)
    \<or> (\<exists>since rows tr e. get_watermark (read_fault E) (c_db st) (u_table u) = Inr since
          \<and> source E since = Inr rows \<and> rows \<noteq> [] \<and> u_transform u rows = Inr tr
          \<and> u_load u (load_fault E) (load_now E) (c_db st) tr = Inl e \<and> st1 = st \<and> x = Some e)
    \<or> (\<exists>since rows st2.
          get_watermark (read_fault E) (c_db st) (u_table u) = Inr since
          \<and> source E since = Inr rows
          \<and> (rows = [] \<and> st2 = st
              \<or> rows \<noteq> [] \<and> (\<exists>tr n db'. u_transform u rows = Inr tr
                    \<and> u_load u (load_fault E) (load_now E) (c_db st) tr = Inr (n, db')
                    \<and> st2 = st\<lparr>c_db := db', c_total_rows := c_total_rows st + n\<rparr>))
          \<and> ((\<exists>e. update_watermark (commit_fault E) (commit_now E) (c_db st2) (u_table u)
                      (int (length rows)) = Inl e \<and> st1 = st2 \<and> x = Some e)
              \<or> (\<exists>db2. update_watermark (commit_fault E) (commit_now E) (c_db st2) (u_table u)
                      (int (length rows)) = Inr db2 \<and> st1 = st2\<lparr>c_db := db2\<rparr> \<and> x = None)))"
  using assms
  by (auto simp: etl_try_def split: sum.splits if_splits prod.splits option.splits)



lemma etl_try_shape:
  assumes l: "u_load u = load_with sql" and r: "etl_try E u st = (st1, x)"
  obtains (raised_before_load) "x \<noteq> None" and "st1 = st"
  | (raised_at_commit) tr n db' where "x \<noteq> None"
      and "load_with sql (load_fault E) (load_now E) (c_db st) tr = Inr (n, db')"
      and "st1 = st\<lparr>c_db := db', c_total_rows := c_total_rows st + n\<rparr>"
  | (committed_empty) k db2 where "x = None"
      and "update_watermark (commit_fault E) (commit_now E) (c_db st) (u_table u) k = Inr db2"
      and "st1 = st\<lparr>c_db := db2\<rparr>"
  | (committed_loaded) tr n db' k db2 where "x = None"
      and "load_with sql (load_fault E) (load_now E) (c_db st) tr = Inr (n, db')"
      and "update_watermark (commit_fault E) (commit_now E) db' (u_table u) k = Inr db2"
      and "st1 = st\<lparr>c_db := db', c_total_rows := c_total_rows st + n, c_db := db2\<rparr>"
proof -
  note o = etl_try_outcomes [OF r, unfolded l]
  from o consider
    (a) e where "get_watermark (read_fault E) (c_db st) (u_table u) = Inl e" "st1 = st" "x = Some e"
  | (b) since e where "source E since = Inl e" "st1 = st" "x = Some e"
  | (c) rows e where "u_transform u rows = Inl e" "st1 = st" "x = Some e"
  | (d) tr e where "load_with sql (load_fault E) (load_now E) (c_db st) tr = Inl e"
      "st1 = st" "x = Some e"
  | (e) rows st2 where
      "rows = [] \<and> st2 = st
        \<or> rows \<noteq> [] \<and> (\<exists>tr n db'. u_transform u rows = Inr tr
            \<and> load_with sql (load_fault E) (load_now E) (c_db st) tr = Inr (n, db')
            \<and> st2 = st\<lparr>c_db := db', c_total_rows := c_total_rows st + n\<rparr>)"
      "(\<exists>e. update_watermark (commit_fault E) (commit_now E) (c_db st2) (u_table u)
                      (int (length rows)) = Inl e \<and> st1 = st2 \<and> x = Some e)
        \<or> (\<exists>db2. update_watermark (commit_fault E) (commit_now E) (c_db st2) (u_table u)
                      (int (length rows)) = Inr db2 \<and> st1 = st2\<lparr>c_db := db2\<rparr> \<and> x = None)"
    by blast
  then show thesis
  proof cases
    case a then show ?thesis by (intro raised_before_load) simp_all
  next
    case b then show ?thesis by (intro raised_before_load) simp_all
  next
    case c then show ?thesis by (intro raised_before_load) simp_all
  next
    case d then show ?thesis by (intro raised_before_load) simp_all
  next
    case e
    from e(1) show ?thesis
    proof (elim disjE conjE exE)
      assume s: "st2 = st"
      from e(2) show ?thesis
      proof (elim disjE conjE exE)
        fix ex assume "st1 = st2" "x = Some ex"
        with s show ?thesis by (intro raised_before_load) simp_all
      next
        fix db2 assume "update_watermark (commit_fault E) (commit_now E) (c_db st2) (u_table u)
                      (int (length rows)) = Inr db2" "st1 = st2\<lparr>c_db := db2\<rparr>" "x = None"
        with s show ?thesis by (intro committed_empty [of _ db2]) simp_all
      qed
    next
      fix tr n db'
      assume ld: "load_with sql (load_fault E) (load_now E) (c_db st) tr = Inr (n, db')"
        and s: "st2 = st\<lparr>c_db := db', c_total_rows := c_total_rows st + n\<rparr>"
      from e(2) show ?thesis
      proof (elim disjE conjE exE)
        fix ex assume "st1 = st2" "x = Some ex"
        with s ld show ?thesis by (intro raised_at_commit [of tr n db']) simp_all
      next
        fix db2 assume "update_watermark (commit_fault E) (commit_now E) (c_db st2) (u_table u)
                      (int (length rows)) = Inr db2" "st1 = st2\<lparr>c_db := db2\<rparr>" "x = None"
        with s ld show ?thesis by (intro committed_loaded [of tr n db' _ db2]) simp_all
      qed
    qed
  qed
qed


lemma etl_try_errors:
  assumes "etl_try E u st = (st1, x)"
  shows "c_errors st1 = c_errors st"
  using etl_try_outcomes [OF assms] by (elim disjE exE conjE) auto

lemma etl_try_raise_keeps_watermark:
  assumes l: "u_load u = load_with sql" and r: "etl_try E u st = (st1, Some e)"
  shows "etl_watermark (c_db st1) = etl_watermark (c_db st)"
  using l r
proof (cases rule: etl_try_shape)
  case raised_before_load
  then show ?thesis by simp
next
  case (raised_at_commit tr n db')
  from load_with_frame(1) [OF raised_at_commit(2)] raised_at_commit(3) show ?thesis by simp
next
  case (committed_empty k db2)
  then show ?thesis by simp
next
  case (committed_loaded tr n db' k db2)
  then show ?thesis by simp
qed

lemma etl_try_commit:
  assumes l: "u_load u = load_with sql" and r: "etl_try E u st = (st1, None)"
    and w: "etl_watermark (c_db st) (u_table u) = Some w"
  shows "\<exists>k. etl_watermark (c_db st1) (u_table u)
      = Some (w\<lparr>last_fetched_at := commit_now E, rows_last_run := k,
               last_run_at := Some (commit_now E), total_rows_ever := total_rows_ever w + k\<rparr>)"
  using l r
proof (cases rule: etl_try_shape)
  case raised_before_load
  then show ?thesis by simp
next
  case (raised_at_commit tr n db')
  then show ?thesis by simp
next
  case (committed_empty k db2)
  from update_watermark_row [OF committed_empty(2) w] committed_empty(3) show ?thesis
    by auto
next
  case (committed_loaded tr n db' k db2)
  from load_with_frame(1) [OF committed_loaded(2)] w
  have "etl_watermark db' (u_table u) = Some w" by simp
  from update_watermark_row [OF committed_loaded(3) this] committed_loaded(4) show ?thesis
    by auto
qed

lemma etl_try_frame:
  assumes l: "u_load u = load_with sql" and r: "etl_try E u st = (st1, x)"
  shows "(t' \<noteq> u_table u \<longrightarrow> etl_watermark (c_db st1) t' = etl_watermark (c_db st) t')
    \<and> (T' \<noteq> s_table sql \<longrightarrow> tables (c_db st1) T' = tables (c_db st) T')"
  using l r
proof (cases rule: etl_try_shape)
  case raised_before_load
  then show ?thesis by simp
next
  case (raised_at_commit tr n db')
  from load_with_frame [OF raised_at_commit(2)] raised_at_commit(3) show ?thesis by simp
next
  case (committed_empty k db2)
  from update_watermark_frame [OF committed_empty(2)] committed_empty(3) show ?thesis
    by simp
next
  case (committed_loaded tr n db' k db2)
  from load_with_frame [OF committed_loaded(2)] update_watermark_frame [OF committed_loaded(3)]
    committed_loaded(4) show ?thesis by simp
qed

text \<open>
  A block reads and writes its own watermark row and its own table only: from two
  states that agree on these it raises the same way and leaves these equal again.
\<close>

lemma commit_local:
  assumes w: "etl_watermark (c_db a1) t = etl_watermark (c_db a2) t"
    and tb: "tables (c_db a1) T = tables (c_db a2) T"
  shows "snd (case update_watermark f now (c_db a1) t k of
                Inl e \<Rightarrow> (a1, Some e) | Inr db2 \<Rightarrow> (a1\<lparr>c_db := db2\<rparr>, None))
       = snd (case update_watermark f now (c_db a2) t k of
                Inl e \<Rightarrow> (a2, Some e) | Inr db2 \<Rightarrow> (a2\<lparr>c_db := db2\<rparr>, None))
    \<and> etl_watermark (c_db (fst (case update_watermark f now (c_db a1) t k of
                Inl e \<Rightarrow> (a1, Some e) | Inr db2 \<Rightarrow> (a1\<lparr>c_db := db2\<rparr>, None)))) t
       = etl_watermark (c_db (fst (case update_watermark f now (c_db a2) t k of
                Inl e \<Rightarrow> (a2, Some e) | Inr db2 \<Rightarrow> (a2\<lparr>c_db := db2\<rparr>, None)))) t
    \<and> tables (c_db (fst (case update_watermark f now (c_db a1) t k of
                Inl e \<Rightarrow> (a1, Some e) | Inr db2 \<Rightarrow> (a1\<lparr>c_db := db2\<rparr>, None)))) T
       = tables (c_db (fst (case update_watermark f now (c_db a2) t k of
                Inl e \<Rightarrow> (a2, Some e) | Inr db2 \<Rightarrow> (a2\<lparr>c_db := db2\<rparr>, None)))) T"
  using update_watermark_local [OF w, of f now k]
proof (elim disjE exE conjE)
  fix e
  assume "update_watermark f now (c_db a1) t k = Inl e"
    and "update_watermark f now (c_db a2) t k = Inl e"
  with w tb show ?thesis by simp
next
  fix d1 d2
  assume u1: "update_watermark f now (c_db a1) t k = Inr d1"
    and u2: "update_watermark f now (c_db a2) t k = Inr d2"
    and e: "etl_watermark d1 t = etl_watermark d2 t"
  from update_watermark_frame(1) [OF u1] update_watermark_frame(1) [OF u2] tb e u1 u2
  show ?thesis by simp
qed

lemma etl_try_local:
  assumes l: "u_load u = load_with sql"
    and w: "etl_watermark (c_db s1) (u_table u) = etl_watermark (c_db s2) (u_table u)"
    and tb: "tables (c_db s1) (s_table sql) = tables (c_db s2) (s_table sql)"
  shows "snd (etl_try E u s1) = snd (etl_try E u s2)
    \<and> etl_watermark (c_db (fst (etl_try E u s1))) (u_table u)
        = etl_watermark (c_db (fst (etl_try E u s2))) (u_table u)
    \<and> tables (c_db (fst (etl_try E u s1))) (s_table sql)
        = tables (c_db (fst (etl_try E u s2))) (s_table sql)"
proof -
  note gw = get_watermark_local [OF w, of "read_fault E"]
  show ?thesis
  proof (cases "get_watermark (read_fault E) (c_db s2) (u_table u)")
    case (Inl e)
    with gw w tb show ?thesis by (simp add: etl_try_def)
  next
    case since: (Inr since)
    show ?thesis
    proof (cases "source E since")
      case (Inl e)
      with gw since w tb show ?thesis by (simp add: etl_try_def)
    next
      case rows: (Inr rows)
      show ?thesis
      proof (cases "rows = []")
        case True
        with gw since rows commit_local [OF w tb, of "commit_fault E" "commit_now E" 0]
        show ?thesis by (simp add: etl_try_def)
      next
        case ne: False
        show ?thesis
        proof (cases "u_transform u rows")
          case (Inl e)
          with gw since rows ne w tb show ?thesis by (simp add: etl_try_def)
        next
          case tr: (Inr tr)
          from load_with_local [OF tb, of "load_fault E" "load_now E" tr]
          show ?thesis
          proof (elim disjE exE conjE)
            fix e
            assume "load_with sql (load_fault E) (load_now E) (c_db s1) tr = Inl e"
              and "load_with sql (load_fault E) (load_now E) (c_db s2) tr = Inl e"
            with gw since rows ne tr w tb show ?thesis by (simp add: etl_try_def l)
          next
            fix n d1 d2
            assume l1: "load_with sql (load_fault E) (load_now E) (c_db s1) tr = Inr (n, d1)"
              and l2: "load_with sql (load_fault E) (load_now E) (c_db s2) tr = Inr (n, d2)"
              and t12: "tables d1 (s_table sql) = tables d2 (s_table sql)"
            let ?a1 = "s1\<lparr>c_db := d1, c_total_rows := c_total_rows s1 + n\<rparr>"
            let ?a2 = "s2\<lparr>c_db := d2, c_total_rows := c_total_rows s2 + n\<rparr>"
            from load_with_frame(1) [OF l1] load_with_frame(1) [OF l2] w
            have w12: "etl_watermark (c_db ?a1) (u_table u) = etl_watermark (c_db ?a2) (u_table u)"
              by simp
            from t12 have tb12: "tables (c_db ?a1) (s_table sql) = tables (c_db ?a2) (s_table sql)"
              by simp
            from commit_local [OF w12 tb12, of "commit_fault E" "commit_now E"
                "int (length rows)"] gw since rows ne tr l1 l2
            show ?thesis by (simp add: etl_try_def l)
          qed
        qed
      qed
    qed
  qed
qed

subsection \<open>The handler of a block\<close>

lemma etl_step_db: "c_db (fst (etl_step E u st)) = c_db (fst (etl_try E u st))"
  by (cases "etl_try E u st") (auto simp: etl_step_def split: option.splits)

lemma etl_step_result:
  "snd (etl_step E u st) =
     (case snd (etl_try E u st) of
        None \<Rightarrow> None
      | Some e \<Rightarrow> if is_Exception e then None else Some e)"
  by (cases "etl_try E u st") (auto simp: etl_step_def split: option.splits)

lemma etl_step_errors:
  "c_errors (fst (etl_step E u st)) =
     c_errors st @ (case snd (etl_try E u st) of
                      None \<Rightarrow> []
                    | Some e \<Rightarrow> if is_Exception e then [(u_label u, e)] else [])"
proof (cases "etl_try E u st")
  case (Pair st1 x)
  from etl_try_errors [OF Pair] Pair show ?thesis
    by (auto simp: etl_step_def split: option.splits)
qed

lemma etl_step_frame:
  assumes l: "u_load u = load_with sql"
  shows "(t' \<noteq> u_table u \<longrightarrow>
      etl_watermark (c_db (fst (etl_step E u st))) t' = etl_watermark (c_db st) t')
    \<and> (T' \<noteq> s_table sql \<longrightarrow> tables (c_db (fst (etl_step E u st))) T' = tables (c_db st) T')"
proof -
  obtain st1 x where r: "etl_try E u st = (st1, x)" by (cases "etl_try E u st")
  from etl_try_frame [OF l r, of t' T'] r show ?thesis
    by (simp add: etl_step_db)
qed

subsection \<open>The blocks in sequence\<close>

lemma run_units_only_base_exceptions:
  "snd (run_units env us st) = Some e \<Longrightarrow> \<not> is_Exception e"
proof (induction us arbitrary: st)
  case Nil
  then show ?case by simp
next
  case (Cons u us)
  obtain st1 y where s: "etl_step (env (u_table u)) u st = (st1, y)"
    by (cases "etl_step (env (u_table u)) u st")
  show ?case
  proof (cases y)
    case None
    with s Cons.prems have "snd (run_units env us st1) = Some e" by simp
    then show ?thesis by (rule Cons.IH)
  next
    case (Some e')
    with s Cons.prems have "e' = e" by simp
    moreover from etl_step_result [of "env (u_table u)" u st] s Some
    have "\<not> is_Exception e'"
      by (auto split: option.splits if_splits)
    ultimately show ?thesis by simp
  qed
qed

lemma run_units_frame:
  assumes "\<forall>u\<in>set us. u_load u = load_with (sq u)"
  shows "(t \<notin> u_table ` set us \<longrightarrow>
      etl_watermark (c_db (fst (run_units env us st))) t = etl_watermark (c_db st) t)
    \<and> (T \<notin> (\<lambda>u. s_table (sq u)) ` set us \<longrightarrow>
      tables (c_db (fst (run_units env us st))) T = tables (c_db st) T)"
  using assms
proof (induction us arbitrary: st)
  case Nil
  show ?case by simp
next
  case (Cons u us)
  obtain st1 y where s: "etl_step (env (u_table u)) u st = (st1, y)"
    by (cases "etl_step (env (u_table u)) u st")
  from Cons.prems have l: "u_load u = load_with (sq u)" by simp
  note f = etl_step_frame [OF l, of t "env (u_table u)" st T]
  show ?case
  proof (cases y)
    case None
    from Cons.IH [of st1] Cons.prems f s None show ?thesis by simp
  next
    case (Some e)
    from f s Some show ?thesis by simp
  qed
qed


lemma same_at_refl: "same_at t T a a"
  by (simp add: same_at_def)

lemma same_at_trans: "same_at t T a b \<Longrightarrow> same_at t T b c \<Longrightarrow> same_at t T a c"
  by (simp add: same_at_def)

lemma same_at_db: "c_db a = c_db b \<Longrightarrow> same_at t T a b"
  by (simp add: same_at_def)

lemma etl_try_same_at:
  assumes l: "u_load u = load_with sql" and s: "same_at (u_table u) (s_table sql) s1 s2"
  shows "snd (etl_try E u s1) = snd (etl_try E u s2)"
    and "same_at (u_table u) (s_table sql) (fst (etl_try E u s1)) (fst (etl_try E u s2))"
  using etl_try_local [OF l, of s1 s2 E] s by (simp_all add: same_at_def)

lemma etl_step_other:
  assumes l0: "u_load u0 = load_with sql0" and t: "t \<noteq> u_table u0" and T: "T \<noteq> s_table sql0"
  shows "same_at t T (fst (etl_step E u0 st)) st"
  using etl_step_frame [OF l0, of t E st T] t T by (simp add: same_at_def)

lemma run_units_other:
  assumes "\<forall>u\<in>set us. u_load u = load_with (sq u)"
    and "t \<notin> u_table ` set us" and "T \<notin> (\<lambda>u. s_table (sq u)) ` set us"
  shows "same_at t T (fst (run_units env us st)) st"
  using run_units_frame [OF assms(1), of t env st T] assms(2,3) by (simp add: same_at_def)

text \<open>
  Each block leaves its watermark row and its table as it would have, had it run alone
  on the state in which the cycle started; when an exception has ended the cycle before
  a block was reached, the block's row and table are as they were.
\<close>

lemma run_units_isolated:
  assumes wf: "\<forall>u\<in>set us. u_load u = load_with (sq u)"
    and dt: "distinct (map u_table us)"
    and dT: "distinct (map (\<lambda>u. s_table (sq u)) us)"
    and u: "u \<in> set us"
  shows "(snd (run_units env us st) = None \<longrightarrow>
        same_at (u_table u) (s_table (sq u)) (fst (run_units env us st))
          (fst (etl_try (env (u_table u)) u st)))
    \<and> (same_at (u_table u) (s_table (sq u)) (fst (run_units env us st))
          (fst (etl_try (env (u_table u)) u st))
        \<or> same_at (u_table u) (s_table (sq u)) (fst (run_units env us st)) st)"
  using wf dt dT u
proof (induction us arbitrary: st)
  case Nil
  then show ?case by simp
next
  case (Cons u0 us)
  let ?t = "u_table u" and ?T = "s_table (sq u)"
  obtain st1 y where s: "etl_step (env (u_table u0)) u0 st = (st1, y)"
    by (cases "etl_step (env (u_table u0)) u0 st")
  from Cons.prems(1) have l0: "u_load u0 = load_with (sq u0)"
    and wf': "\<forall>v\<in>set us. u_load v = load_with (sq v)" by simp_all
  from Cons.prems(2) have t0: "u_table u0 \<notin> u_table ` set us" and dt': "distinct (map u_table us)"
    by simp_all
  from Cons.prems(3) have T0: "s_table (sq u0) \<notin> (\<lambda>v. s_table (sq v)) ` set us"
    and dT': "distinct (map (\<lambda>v. s_table (sq v)) us)" by simp_all
  have db1: "c_db st1 = c_db (fst (etl_try (env (u_table u0)) u0 st))"
    using etl_step_db [of "env (u_table u0)" u0 st] s by simp
  show ?case
  proof (cases "u = u0")
    case True
    have solo: "same_at ?t ?T st1 (fst (etl_try (env ?t) u st))"
      using db1 True by (simp add: same_at_db)
    show ?thesis
    proof (cases y)
      case None
      from t0 T0 True have "same_at ?t ?T (fst (run_units env us st1)) st1"
        by (intro run_units_other [OF wf']) simp_all
      from same_at_trans [OF this solo] s None show ?thesis by simp
    next
      case (Some e)
      with s solo show ?thesis by simp
    qed
  next
    case False
    with Cons.prems(4) have u': "u \<in> set us" by simp
    from Cons.prems(1) u' have l: "u_load u = load_with (sq u)" by simp
    from t0 u' have "?t \<noteq> u_table u0" by (metis imageI)
    moreover from T0 u' have "?T \<noteq> s_table (sq u0)" by (metis imageI)
    ultimately have near: "same_at ?t ?T st1 st"
      using etl_step_other [OF l0, of ?t ?T "env (u_table u0)" st] s by simp
    note loc = etl_try_same_at(2) [OF l near, of "env ?t"]
    show ?thesis
    proof (cases y)
      case None
      note ih = Cons.IH [OF wf' dt' dT' u', of st1]
      from ih loc near s None show ?thesis
        by (auto intro: same_at_trans)
    next
      case (Some e)
      with s near show ?thesis by simp
    qed
  qed
qed

text \<open>
  When the cycle runs to its end, its error log holds, in the order of the blocks, the
  exception each block raises when it runs alone on the state in which the cycle started.
\<close>

lemma run_units_errors:
  assumes wf: "\<forall>u\<in>set us. u_load u = load_with (sq u)"
    and dt: "distinct (map u_table us)"
    and dT: "distinct (map (\<lambda>u. s_table (sq u)) us)"
    and r: "snd (run_units env us st) = None"
  shows "c_errors (fst (run_units env us st)) =
     c_errors st @ concat (map (\<lambda>u. case snd (etl_try (env (u_table u)) u st) of
                                       None \<Rightarrow> [] | Some e \<Rightarrow> [(u_label u, e)]) us)"
  using wf dt dT r
proof (induction us arbitrary: st)
  case Nil
  then show ?case by simp
next
  case (Cons u0 us)
  obtain st1 y where s: "etl_step (env (u_table u0)) u0 st = (st1, y)"
    by (cases "etl_step (env (u_table u0)) u0 st")
  from Cons.prems(1) have l0: "u_load u0 = load_with (sq u0)"
    and wf': "\<forall>v\<in>set us. u_load v = load_with (sq v)" by simp_all
  from Cons.prems(2) have t0: "u_table u0 \<notin> u_table ` set us" and dt': "distinct (map u_table us)"
    by simp_all
  from Cons.prems(3) have T0: "s_table (sq u0) \<notin> (\<lambda>v. s_table (sq v)) ` set us"
    and dT': "distinct (map (\<lambda>v. s_table (sq v)) us)" by simp_all
  from Cons.prems(4) s have y: "y = None" by (cases y) simp_all
  with Cons.prems(4) s have r': "snd (run_units env us st1) = None" by simp
  from etl_step_result [of "env (u_table u0)" u0 st] s y
  have "case snd (etl_try (env (u_table u0)) u0 st) of None \<Rightarrow> True | Some e \<Rightarrow> is_Exception e"
    by (auto split: option.splits if_splits)
  with etl_step_errors [of "env (u_table u0)" u0 st] s
  have e1: "c_errors st1 = c_errors st
      @ (case snd (etl_try (env (u_table u0)) u0 st) of None \<Rightarrow> [] | Some e \<Rightarrow> [(u_label u0, e)])"
    by (auto split: option.splits)
  have same: "snd (etl_try (env (u_table v)) v st1) = snd (etl_try (env (u_table v)) v st)"
    if v: "v \<in> set us" for v
  proof -
    from wf' v have l: "u_load v = load_with (sq v)" by simp
    from t0 v have "u_table v \<noteq> u_table u0" by (metis imageI)
    moreover from T0 v have "s_table (sq v) \<noteq> s_table (sq u0)" by (metis imageI)
    ultimately have "same_at (u_table v) (s_table (sq v)) st1 st"
      using etl_step_other [OF l0, of "u_table v" "s_table (sq v)" "env (u_table u0)" st] s
      by simp
    from etl_try_same_at(1) [OF l this] show ?thesis .
  qed
  then have m: "map (\<lambda>u. case snd (etl_try (env (u_table u)) u st1) of
                           None \<Rightarrow> [] | Some e \<Rightarrow> [(u_label u, e)]) us
      = map (\<lambda>u. case snd (etl_try (env (u_table u)) u st) of
                    None \<Rightarrow> [] | Some e \<Rightarrow> [(u_label u, e)]) us"
    by (intro map_cong) simp_all
  from Cons.IH [OF wf' dt' dT' r'] e1 m s y show ?case by simp
qed

text \<open>
  When the exception each block raises, run alone on the starting state, is an
  \<open>Exception\<close>, every handler catches and the sequence runs to its end.
\<close>

lemma run_units_returns:
  assumes wf: "\<forall>u\<in>set us. u_load u = load_with (sq u)"
    and dt: "distinct (map u_table us)"
    and dT: "distinct (map (\<lambda>u. s_table (sq u)) us)"
    and ex: "list_all (\<lambda>u. case snd (etl_try (env (u_table u)) u st) of
                             None \<Rightarrow> True | Some e \<Rightarrow> is_Exception e) us"
  shows "snd (run_units env us st) = None"
  using wf dt dT ex
proof (induction us arbitrary: st)
  case Nil
  then show ?case by simp
next
  case (Cons u0 us)
  obtain st1 y where s: "etl_step (env (u_table u0)) u0 st = (st1, y)"
    by (cases "etl_step (env (u_table u0)) u0 st")
  from Cons.prems(1) have l0: "u_load u0 = load_with (sq u0)"
    and wf': "\<forall>v\<in>set us. u_load v = load_with (sq v)" by simp_all
  from Cons.prems(2) have t0: "u_table u0 \<notin> u_table ` set us" and dt': "distinct (map u_table us)"
    by simp_all
  from Cons.prems(3) have T0: "s_table (sq u0) \<notin> (\<lambda>v. s_table (sq v)) ` set us"
    and dT': "distinct (map (\<lambda>v. s_table (sq v)) us)" by simp_all
  from Cons.prems(4)
  have h0: "case snd (etl_try (env (u_table u0)) u0 st) of None \<Rightarrow> True | Some e \<Rightarrow> is_Exception e"
    and hs: "list_all (\<lambda>u. case snd (etl_try (env (u_table u)) u st) of
                             None \<Rightarrow> True | Some e \<Rightarrow> is_Exception e) us"
    by simp_all
  from etl_step_result [of "env (u_table u0)" u0 st] s h0 have y: "y = None"
    by (auto split: option.splits)
  have same: "snd (etl_try (env (u_table v)) v st1) = snd (etl_try (env (u_table v)) v st)"
    if v: "v \<in> set us" for v
  proof -
    from wf' v have l: "u_load v = load_with (sq v)" by simp
    from t0 v have "u_table v \<noteq> u_table u0" by (metis imageI)
    moreover from T0 v have "s_table (sq v) \<noteq> s_table (sq u0)" by (metis imageI)
    ultimately have "same_at (u_table v) (s_table (sq v)) st1 st"
      using etl_step_other [OF l0, of "u_table v" "s_table (sq v)" "env (u_table u0)" st] s
      by simp
    from etl_try_same_at(1) [OF l this] show ?thesis .
  qed
  with hs have "list_all (\<lambda>u. case snd (etl_try (env (u_table u)) u st1) of
                             None \<Rightarrow> True | Some e \<Rightarrow> is_Exception e) us"
    by (simp add: list_all_iff)
  from Cons.IH [OF wf' dt' dT' this] s y show ?case by simp
qed

subsection \<open>The six blocks of \<open>run_cycle\<close>\<close>

lemma units_loaders:
  "\<exists>sq. (\<forall>u\<in>set (units B). u_load u = load_with (sq u))
    \<and> distinct (map u_table (units B))
    \<and> distinct (map (\<lambda>u. s_table (sq u)) (units B))
    \<and> (\<forall>u T. (u, T) \<in> set (zip (units B)
        [''dim_scenario'', ''fact_node_input_history'', ''fact_run_summary'',
         ''fact_node_calc_results'', ''fact_event_input_history'', ''fact_scenario_timeline''])
      \<longrightarrow> u \<in> set (units B) \<and> s_table (sq u) = T)"
proof -
  define sq where "sq = (\<lambda>u::etl_unit.
      if u_table u = ''public.fc_scenario'' then sql_load_scenarios
      else if u_table u = ''public.fc_scenario_node_data'' then sql_load_node_data
      else if u_table u = ''public.fc_scenario_run'' then sql_load_runs
      else if u_table u = ''public.fc_scenario_node_calc'' then sql_load_node_calc
      else if u_table u = ''public.fc_scenario_event_data'' then sql_load_event_data
      else sql_load_timeline)"
  have names: "map u_table (units B) =
      [''public.fc_scenario'', ''public.fc_scenario_node_data'', ''public.fc_scenario_run'',
       ''public.fc_scenario_node_calc'', ''public.fc_scenario_event_data'', ''timeline'']"
    by (simp add: units_def)
  have 1: "\<forall>u\<in>set (units B). u_load u = load_with (sq u)"
    by (simp add: units_def sq_def load_scenarios_def load_node_data_def load_runs_def
        load_node_calc_def load_event_data_def load_timeline_def)
  have 2: "distinct (map u_table (units B))"
    by (simp add: names)
  have tab: "s_table (sq u) = T"
    if "(u_table u, T) \<in> set
        [(''public.fc_scenario'', ''dim_scenario''),
         (''public.fc_scenario_node_data'', ''fact_node_input_history''),
         (''public.fc_scenario_run'', ''fact_run_summary''),
         (''public.fc_scenario_node_calc'', ''fact_node_calc_results''),
         (''public.fc_scenario_event_data'', ''fact_event_input_history''),
         (''timeline'', ''fact_scenario_timeline'')]" for u T
  proof -
    from that have "u_table u = ''public.fc_scenario'' \<and> T = ''dim_scenario''
      \<or> u_table u = ''public.fc_scenario_node_data'' \<and> T = ''fact_node_input_history''
      \<or> u_table u = ''public.fc_scenario_run'' \<and> T = ''fact_run_summary''
      \<or> u_table u = ''public.fc_scenario_node_calc'' \<and> T = ''fact_node_calc_results''
      \<or> u_table u = ''public.fc_scenario_event_data'' \<and> T = ''fact_event_input_history''
      \<or> u_table u = ''timeline'' \<and> T = ''fact_scenario_timeline''"
      by simp
    then show ?thesis
      by (elim disjE conjE)
        (simp_all add: sq_def sql_load_scenarios_def sql_load_node_data_def
          sql_load_runs_def sql_load_node_calc_def sql_load_event_data_def sql_load_timeline_def)
  qed
  have "map (\<lambda>u. s_table (sq u)) (units B) =
      [''dim_scenario'', ''fact_node_input_history'', ''fact_run_summary'',
       ''fact_node_calc_results'', ''fact_event_input_history'', ''fact_scenario_timeline'']"
    by (simp add: units_def sq_def sql_load_scenarios_def sql_load_node_data_def
        sql_load_runs_def sql_load_node_calc_def sql_load_event_data_def sql_load_timeline_def)
  then have 3: "distinct (map (\<lambda>u. s_table (sq u)) (units B))"
    by simp
  have 4: "u \<in> set (units B) \<and> s_table (sq u) = T"
    if m: "(u, T) \<in> set (zip (units B)
        [''dim_scenario'', ''fact_node_input_history'', ''fact_run_summary'',
         ''fact_node_calc_results'', ''fact_event_input_history'', ''fact_scenario_timeline''])"
    for u T
  proof
    from m show "u \<in> set (units B)" by (rule set_zip_leftD)
    from m have "(u_table u, T) \<in> (\<lambda>p. (u_table (fst p), snd p)) ` set (zip (units B)
        [''dim_scenario'', ''fact_node_input_history'', ''fact_run_summary'',
         ''fact_node_calc_results'', ''fact_event_input_history'', ''fact_scenario_timeline''])"
      by force
    also have "\<dots> = set (zip (map u_table (units B))
        [''dim_scenario'', ''fact_node_input_history'', ''fact_run_summary'',
         ''fact_node_calc_results'', ''fact_event_input_history'', ''fact_scenario_timeline''])"
      by (simp add: zip_map1 case_prod_beta)
    finally have "(u_table u, T) \<in> set
        [(''public.fc_scenario'', ''dim_scenario''),
         (''public.fc_scenario_node_data'', ''fact_node_input_history''),
         (''public.fc_scenario_run'', ''fact_run_summary''),
         (''public.fc_scenario_node_calc'', ''fact_node_calc_results''),
         (''public.fc_scenario_event_data'', ''fact_event_input_history''),
         (''timeline'', ''fact_scenario_timeline'')]"
      by (simp add: names)
    then show "s_table (sq u) = T" by (rule tab)
  qed
  from 1 2 3 4 show ?thesis by blast
qed

text \<open>
  C3. An \<open>Exception\<close> raised in a block never leaves \<open>run_cycle\<close>: what it lets through
  is not an \<open>Exception\<close> (a \<open>KeyboardInterrupt\<close>, say), and when no block raises anything
  but an \<open>Exception\<close> the cycle returns. When the cycle runs to its end, its error log
  holds exactly the exception each block raises when it runs alone on the database the
  cycle started with, and every block has left its watermark row and its table as it
  leaves them when it runs alone: a block that fails changes nothing for the blocks after
  it, which extract, transform, load and commit as they would without it.
\<close>

theorem failure_isolation:
  "(\<forall>e. snd (run_cycle B env db0) = Some e \<longrightarrow> \<not> is_Exception e)
   \<and> (list_all (\<lambda>u. case snd (etl_try (env (u_table u)) u (cycle_start db0)) of
                         None \<Rightarrow> True | Some e \<Rightarrow> is_Exception e) (units B)
        \<longrightarrow> snd (run_cycle B env db0) = None)
   \<and> (snd (run_cycle B env db0) = None \<longrightarrow>
        c_errors (fst (run_cycle B env db0)) =
          concat (map (\<lambda>u. case snd (etl_try (env (u_table u)) u (cycle_start db0)) of
                              None \<Rightarrow> [] | Some e \<Rightarrow> [(u_label u, e)]) (units B))
        \<and> ((u, T) \<in> set (zip (units B)
              [''dim_scenario'', ''fact_node_input_history'', ''fact_run_summary'',
               ''fact_node_calc_results'', ''fact_event_input_history'',
               ''fact_scenario_timeline''])
            \<longrightarrow> etl_watermark (c_db (fst (run_cycle B env db0))) (u_table u)
                  = etl_watermark (c_db (fst (etl_try (env (u_table u)) u (cycle_start db0))))
                      (u_table u)
              \<and> tables (c_db (fst (run_cycle B env db0))) T
                  = tables (c_db (fst (etl_try (env (u_table u)) u (cycle_start db0)))) T))"
proof -
  obtain sq where wf: "\<forall>u\<in>set (units B). u_load u = load_with (sq u)"
    and dt: "distinct (map u_table (units B))"
    and dT: "distinct (map (\<lambda>u. s_table (sq u)) (units B))"
    and zp: "\<forall>u T. (u, T) \<in> set (zip (units B)
        [''dim_scenario'', ''fact_node_input_history'', ''fact_run_summary'',
         ''fact_node_calc_results'', ''fact_event_input_history'', ''fact_scenario_timeline''])
      \<longrightarrow> u \<in> set (units B) \<and> s_table (sq u) = T"
    using units_loaders [of B] by blast
  have a: "\<forall>e. snd (run_cycle B env db0) = Some e \<longrightarrow> \<not> is_Exception e"
    by (auto simp: run_cycle_def dest: run_units_only_base_exceptions)
  have b: "c_errors (fst (run_cycle B env db0)) =
          concat (map (\<lambda>u. case snd (etl_try (env (u_table u)) u (cycle_start db0)) of
                              None \<Rightarrow> [] | Some e \<Rightarrow> [(u_label u, e)]) (units B))"
    if "snd (run_cycle B env db0) = None"
    using run_units_errors [OF wf dt dT, of env "cycle_start db0"] that
    by (simp add: run_cycle_def cycle_start_def)
  have c: "etl_watermark (c_db (fst (run_cycle B env db0))) (u_table u)
                  = etl_watermark (c_db (fst (etl_try (env (u_table u)) u (cycle_start db0))))
                      (u_table u)
              \<and> tables (c_db (fst (run_cycle B env db0))) T
                  = tables (c_db (fst (etl_try (env (u_table u)) u (cycle_start db0)))) T"
    if r: "snd (run_cycle B env db0) = None"
      and m: "(u, T) \<in> set (zip (units B)
              [''dim_scenario'', ''fact_node_input_history'', ''fact_run_summary'',
               ''fact_node_calc_results'', ''fact_event_input_history'',
               ''fact_scenario_timeline''])"
  proof -
    from zp m have u: "u \<in> set (units B)" and T: "s_table (sq u) = T" by blast+
    from run_units_isolated [OF wf dt dT u, of env "cycle_start db0"] r T show ?thesis
      by (simp add: run_cycle_def same_at_def)
  qed
  have d: "snd (run_cycle B env db0) = None"
    if "list_all (\<lambda>u. case snd (etl_try (env (u_table u)) u (cycle_start db0)) of
                         None \<Rightarrow> True | Some e \<Rightarrow> is_Exception e) (units B)"
    using run_units_returns [OF wf dt dT that] by (simp add: run_cycle_def)
  from a b c d show ?thesis by blast
qed

theorem failure_isolation_witness:
  "snd (run_cycle sample_rt sample_env seeded_db) = None
   \<and> c_errors (fst (run_cycle sample_rt sample_env seeded_db))
       = [(''Scenarios'', OtherError ''connection refused'')]
   \<and> map_option last_fetched_at
        (etl_watermark (c_db (fst (run_cycle sample_rt sample_env seeded_db)))
           ''public.fc_scenario_node_data'') = Some 1700000001
   \<and> column_values ''source_id''
        (tables (c_db (fst (run_cycle sample_rt sample_env seeded_db)))
           ''fact_node_input_history'') = [PStr ''nd-1'']"
proof -
  let ?u = "units sample_rt ! 1"
  let ?t = "''public.fc_scenario_node_data''"
  let ?T = "''fact_node_input_history''"
  note t = failure_isolation [of sample_rt sample_env seeded_db ?u ?T]
  have "list_all (\<lambda>u. case snd (etl_try (sample_env (u_table u)) u (cycle_start seeded_db)) of
                         None \<Rightarrow> True | Some e \<Rightarrow> is_Exception e) (units sample_rt)"
    by code_simp
  with t have r: "snd (run_cycle sample_rt sample_env seeded_db) = None"
    by blast
  have m: "(?u, ?T) \<in> set (zip (units sample_rt)
      [''dim_scenario'', ''fact_node_input_history'', ''fact_run_summary'',
       ''fact_node_calc_results'', ''fact_event_input_history'', ''fact_scenario_timeline''])"
    by (simp add: units_def)
  have ut: "u_table ?u = ?t"
    by (simp add: units_def)
  from t r have errs: "c_errors (fst (run_cycle sample_rt sample_env seeded_db)) =
      concat (map (\<lambda>u. case snd (etl_try (sample_env (u_table u)) u (cycle_start seeded_db)) of
                          None \<Rightarrow> [] | Some e \<Rightarrow> [(u_label u, e)]) (units sample_rt))"
    by blast
  from t r m have "etl_watermark (c_db (fst (run_cycle sample_rt sample_env seeded_db))) (u_table ?u)
      = etl_watermark (c_db (fst (etl_try (sample_env (u_table ?u)) ?u (cycle_start seeded_db))))
          (u_table ?u)"
    by blast
  then have wm: "etl_watermark (c_db (fst (run_cycle sample_rt sample_env seeded_db))) ?t
      = etl_watermark (c_db (fst (etl_try (sample_env ?t) ?u (cycle_start seeded_db)))) ?t"
    unfolding ut .
  from t r m have "tables (c_db (fst (run_cycle sample_rt sample_env seeded_db))) ?T
      = tables (c_db (fst (etl_try (sample_env (u_table ?u)) ?u (cycle_start seeded_db)))) ?T"
    by blast
  then have tb: "tables (c_db (fst (run_cycle sample_rt sample_env seeded_db))) ?T
      = tables (c_db (fst (etl_try (sample_env ?t) ?u (cycle_start seeded_db)))) ?T"
    unfolding ut .
  have e1: "concat (map (\<lambda>u. case snd (etl_try (sample_env (u_table u)) u
                                       (cycle_start seeded_db)) of
                          None \<Rightarrow> [] | Some e \<Rightarrow> [(u_label u, e)]) (units sample_rt))
      = [(''Scenarios'', OtherError ''connection refused'')]"
    by code_simp
  have e2: "map_option last_fetched_at
      (etl_watermark (c_db (fst (etl_try (sample_env ?t) ?u (cycle_start seeded_db)))) ?t)
      = Some 1700000001"
    by code_simp
  have e3: "column_values ''source_id''
      (tables (c_db (fst (etl_try (sample_env ?t) ?u (cycle_start seeded_db)))) ?T)
      = [PStr ''nd-1'']"
    by code_simp
  from r errs e1 wm e2 tb e3 show ?thesis by simp
qed

subsection \<open>The watermark over a cycle and over the cycles\<close>

lemma cycle_row_of_unit:
  assumes u: "u \<in> set (units B)"
  shows "(snd (run_cycle B env db0) = None \<longrightarrow>
        etl_watermark (c_db (fst (run_cycle B env db0))) (u_table u)
          = etl_watermark (c_db (fst (etl_try (env (u_table u)) u (cycle_start db0)))) (u_table u))
    \<and> (etl_watermark (c_db (fst (run_cycle B env db0))) (u_table u)
          = etl_watermark (c_db (fst (etl_try (env (u_table u)) u (cycle_start db0)))) (u_table u)
        \<or> etl_watermark (c_db (fst (run_cycle B env db0))) (u_table u)
          = etl_watermark db0 (u_table u))"
proof -
  obtain sq where wf: "\<forall>u\<in>set (units B). u_load u = load_with (sq u)"
    and dt: "distinct (map u_table (units B))"
    and dT: "distinct (map (\<lambda>u. s_table (sq u)) (units B))"
    using units_loaders [of B] by blast
  from run_units_isolated [OF wf dt dT u, of env "cycle_start db0"] show ?thesis
    by (auto simp: run_cycle_def same_at_def cycle_start_def)
qed

lemma cycle_row_other:
  assumes "t \<notin> u_table ` set (units B)"
  shows "etl_watermark (c_db (fst (run_cycle B env db0))) t = etl_watermark db0 t"
proof -
  obtain sq where wf: "\<forall>u\<in>set (units B). u_load u = load_with (sq u)"
    using units_loaders [of B] by blast
  from run_units_frame [OF wf, of t env "cycle_start db0"] assms show ?thesis
    by (simp add: run_cycle_def cycle_start_def)
qed

lemma unit_raise_or_commit:
  assumes u: "u \<in> set (units B)"
  shows "(snd (etl_try E u st) \<noteq> None \<longrightarrow>
        etl_watermark (c_db (fst (etl_try E u st))) = etl_watermark (c_db st))
    \<and> (snd (etl_try E u st) = None \<and> etl_watermark (c_db st) (u_table u) = Some w \<longrightarrow>
        (\<exists>k. etl_watermark (c_db (fst (etl_try E u st))) (u_table u)
           = Some (w\<lparr>last_fetched_at := commit_now E, rows_last_run := k,
                    last_run_at := Some (commit_now E),
                    total_rows_ever := total_rows_ever w + k\<rparr>)))"
proof -
  obtain sq where wf: "\<forall>u\<in>set (units B). u_load u = load_with (sq u)"
    using units_loaders [of B] by blast
  with u have l: "u_load u = load_with (sq u)" by simp
  obtain st1 x where r: "etl_try E u st = (st1, x)" by (cases "etl_try E u st")
  show ?thesis
  proof (cases x)
    case None
    with etl_try_commit [OF l, of E st st1 w] r show ?thesis by simp
  next
    case (Some e)
    with etl_try_raise_keeps_watermark [OF l, of E st st1 e] r show ?thesis by simp
  qed
qed

lemma cycle_row:
  assumes w: "etl_watermark db0 t = Some w"
  shows "\<exists>w'. etl_watermark (c_db (fst (run_cycle B env db0))) t = Some w'
    \<and> (last_fetched_at w' = last_fetched_at w \<or> last_fetched_at w' = commit_now (env t))"
proof (cases "t \<in> u_table ` set (units B)")
  case False
  with cycle_row_other [of t B env db0] w show ?thesis by simp
next
  case True
  then obtain u where u: "u \<in> set (units B)" and t: "t = u_table u" by auto
  let ?solo = "etl_try (env t) u (cycle_start db0)"
  have start: "etl_watermark (c_db (cycle_start db0)) = etl_watermark db0"
    by (simp add: cycle_start_def)
  from unit_raise_or_commit [OF u, of "env t" "cycle_start db0" w] w
  have "\<exists>w'. etl_watermark (c_db (fst ?solo)) t = Some w'
    \<and> (last_fetched_at w' = last_fetched_at w \<or> last_fetched_at w' = commit_now (env t))"
    unfolding start t [symmetric] by (cases "snd ?solo") auto
  with cycle_row_of_unit [OF u, of env db0] w show ?thesis
    unfolding t [symmetric] by auto
qed

lemma run_cycles_Cons:
  "run_cycles B (env # envs) db0 = run_cycles B envs (c_db (fst (run_cycle B env db0)))"
  by (simp add: run_cycles_def)

lemma run_cycles_append:
  "run_cycles B (envs1 @ envs2) db0 = run_cycles B envs2 (run_cycles B envs1 db0)"
  by (simp add: run_cycles_def)

lemma cycles_row:
  assumes "etl_watermark db0 t = Some w"
  shows "\<exists>w'. etl_watermark (run_cycles B envs db0) t = Some w'
    \<and> (last_fetched_at w' = last_fetched_at w
        \<or> last_fetched_at w' \<in> set (map (\<lambda>env. commit_now (env t)) envs))"
  using assms
proof (induction envs arbitrary: db0 w)
  case Nil
  then show ?case by (simp add: run_cycles_def)
next
  case (Cons env envs)
  from cycle_row [OF Cons.prems, of B env]
  obtain w1 where w1: "etl_watermark (c_db (fst (run_cycle B env db0))) t = Some w1"
    and l1: "last_fetched_at w1 = last_fetched_at w \<or> last_fetched_at w1 = commit_now (env t)"
    by blast
  from Cons.IH [OF w1]
  obtain w' where "etl_watermark (run_cycles B envs (c_db (fst (run_cycle B env db0)))) t = Some w'"
    and "last_fetched_at w' = last_fetched_at w1
        \<or> last_fetched_at w' \<in> set (map (\<lambda>env. commit_now (env t)) envs)"
    by blast
  with l1 show ?case
    by (auto simp: run_cycles_Cons)
qed

lemma cycles_monotone:
  assumes w: "etl_watermark db0 t = Some w0"
    and s: "sorted (last_fetched_at w0 # map (\<lambda>env. commit_now (env t)) (envs1 @ envs2))"
  shows "\<exists>w1 w2. etl_watermark (run_cycles B envs1 db0) t = Some w1
    \<and> etl_watermark (run_cycles B (envs1 @ envs2) db0) t = Some w2
    \<and> last_fetched_at w0 \<le> last_fetched_at w1
    \<and> last_fetched_at w1 \<le> last_fetched_at w2"
proof -
  let ?c1 = "map (\<lambda>env. commit_now (env t)) envs1"
  let ?c2 = "map (\<lambda>env. commit_now (env t)) envs2"
  from s have a1: "\<forall>c\<in>set ?c1. last_fetched_at w0 \<le> c"
    and a2: "\<forall>c\<in>set ?c2. last_fetched_at w0 \<le> c"
    and a12: "\<forall>c\<in>set ?c1. \<forall>d\<in>set ?c2. c \<le> d"
    by (auto simp: sorted_append)
  from cycles_row [OF w, of B envs1]
  obtain w1 where w1: "etl_watermark (run_cycles B envs1 db0) t = Some w1"
    and l1: "last_fetched_at w1 = last_fetched_at w0 \<or> last_fetched_at w1 \<in> set ?c1"
    by blast
  from cycles_row [OF w1, of B envs2]
  obtain w2 where w2: "etl_watermark (run_cycles B (envs1 @ envs2) db0) t = Some w2"
    and l2: "last_fetched_at w2 = last_fetched_at w1 \<or> last_fetched_at w2 \<in> set ?c2"
    by (auto simp: run_cycles_append)
  from l1 a1 have "last_fetched_at w0 \<le> last_fetched_at w1" by auto
  moreover from l1 l2 a2 a12 have "last_fetched_at w1 \<le> last_fetched_at w2" by auto
  ultimately show ?thesis using w1 w2 by blast
qed


text \<open>
  C2 (counterexample). The claim has \<open>last_fetched_at\<close> never decrease. \<open>update_watermark\<close>
  writes \<open>NOW()\<close> whatever the row holds: in a cycle that returns, with nothing failing
  for the timeline, a database clock that reads 5 takes the timeline's \<open>last_fetched_at\<close>
  from 1577836800 down to 5.
\<close>

theorem watermark_decreases_counterexample:
  "map_option last_fetched_at (etl_watermark seeded_db ''timeline'') = Some 1577836800
   \<and> snd (run_cycle sample_rt early_clock_env seeded_db) = None
   \<and> c_errors (fst (run_cycle sample_rt early_clock_env seeded_db))
       = [(''Scenarios'', OtherError ''connection refused'')]
   \<and> map_option last_fetched_at
        (etl_watermark (c_db (fst (run_cycle sample_rt early_clock_env seeded_db))) ''timeline'')
       = Some 5"
  by code_simp

text \<open>
  C2 (amended). A block whose body raises leaves the \<open>etl_watermark\<close> table as it was; a
  block whose body returns has set its entity's row to the time of the commit. Over a
  cycle an entity's row is what its block makes of it, or what it was when the cycle
  ended before the block; the row of a name that has no block is not touched. So, as
  long as the database clock does not run backwards (the time of each commit is not
  before the stored timestamp nor before the commits of the cycles before it),
  \<open>last_fetched_at\<close> never decreases from one cycle to a later one.
\<close>

theorem watermark_moves_only_by_commit:
  "(u \<in> set (units B) \<longrightarrow>
      (snd (etl_try (env (u_table u)) u st) \<noteq> None \<longrightarrow>
         etl_watermark (c_db (fst (etl_try (env (u_table u)) u st))) = etl_watermark (c_db st))
      \<and> (snd (etl_try (env (u_table u)) u st) = None
          \<and> etl_watermark (c_db st) (u_table u) = Some w \<longrightarrow>
         (\<exists>k. etl_watermark (c_db (fst (etl_try (env (u_table u)) u st))) (u_table u)
            = Some (w\<lparr>last_fetched_at := commit_now (env (u_table u)), rows_last_run := k,
                     last_run_at := Some (commit_now (env (u_table u))),
                     total_rows_ever := total_rows_ever w + k\<rparr>)))
      \<and> (snd (run_cycle B env db0) = None \<longrightarrow>
         etl_watermark (c_db (fst (run_cycle B env db0))) (u_table u)
           = etl_watermark (c_db (fst (etl_try (env (u_table u)) u (cycle_start db0))))
               (u_table u))
      \<and> (etl_watermark (c_db (fst (run_cycle B env db0))) (u_table u)
           = etl_watermark (c_db (fst (etl_try (env (u_table u)) u (cycle_start db0))))
               (u_table u)
          \<or> etl_watermark (c_db (fst (run_cycle B env db0))) (u_table u)
           = etl_watermark db0 (u_table u)))
   \<and> (t \<notin> u_table ` set (units B) \<longrightarrow>
        etl_watermark (c_db (fst (run_cycle B env db0))) t = etl_watermark db0 t)
   \<and> (etl_watermark db0 t' = Some w0
        \<and> sorted (last_fetched_at w0 # map (\<lambda>env. commit_now (env t')) (envs1 @ envs2))
       \<longrightarrow> (\<exists>w1 w2. etl_watermark (run_cycles B envs1 db0) t' = Some w1
              \<and> etl_watermark (run_cycles B (envs1 @ envs2) db0) t' = Some w2
              \<and> last_fetched_at w0 \<le> last_fetched_at w1
              \<and> last_fetched_at w1 \<le> last_fetched_at w2))"
  using unit_raise_or_commit [of u B "env (u_table u)" st w]
    cycle_row_of_unit [of u B env db0]
    cycle_row_other [of t B env db0]
    cycles_monotone [of db0 t' w0 envs1 envs2 B]
  by blast

theorem watermark_moves_only_by_commit_witness:
  "etl_watermark (c_db (fst (run_cycle sample_rt sample_env seeded_db))) ''public.fc_scenario''
     = etl_watermark seeded_db ''public.fc_scenario''
   \<and> map_option last_fetched_at
        (etl_watermark (c_db (fst (run_cycle sample_rt sample_env seeded_db)))
           ''public.fc_scenario_node_data'') = Some 1700000001
   \<and> etl_watermark (c_db (fst (run_cycle sample_rt sample_env seeded_db)))
        ''public.fc_scenario_run_branch''
     = etl_watermark seeded_db ''public.fc_scenario_run_branch''
   \<and> (\<exists>w1 w2. etl_watermark (run_cycles sample_rt [sample_env] seeded_db) ''timeline'' = Some w1
        \<and> etl_watermark (run_cycles sample_rt ([sample_env] @ [sample_env]) seeded_db) ''timeline''
            = Some w2
        \<and> default_epoch \<le> last_fetched_at w1
        \<and> last_fetched_at w1 \<le> last_fetched_at w2)"
proof -
  let ?u0 = "units sample_rt ! 0"
  let ?u1 = "units sample_rt ! 1"
  let ?t0 = "''public.fc_scenario''"
  let ?t1 = "''public.fc_scenario_node_data''"
  let ?w = "\<lparr>last_fetched_at = default_epoch, rows_last_run = 0, last_run_at = None,
             total_rows_ever = 0\<rparr>"
  have m0: "?u0 \<in> set (units sample_rt)" and m1: "?u1 \<in> set (units sample_rt)"
    by (simp_all add: units_def)
  have t0: "u_table ?u0 = ?t0" and t1: "u_table ?u1 = ?t1"
    by (simp_all add: units_def)
  have r: "snd (run_cycle sample_rt sample_env seeded_db) = None"
    by code_simp
  have start: "c_db (cycle_start seeded_db) = seeded_db"
    by (simp add: cycle_start_def)
  have f0: "snd (etl_try (sample_env ?t0) ?u0 (cycle_start seeded_db)) \<noteq> None"
    by code_simp
  have f1: "snd (etl_try (sample_env ?t1) ?u1 (cycle_start seeded_db)) = None"
    by code_simp
  have w1: "etl_watermark seeded_db ?t1 = Some ?w"
    by (simp add: seeded_db_def)
  have w3: "etl_watermark seeded_db ''timeline'' = Some ?w"
    by (simp add: seeded_db_def)
  have c1: "commit_now (sample_env ?t1) = 1700000001"
    by (simp add: sample_env_def)
  note a = watermark_moves_only_by_commit [of ?u0 sample_rt sample_env "cycle_start seeded_db"
      _ seeded_db, THEN conjunct1, unfolded t0 start]
  from a m0 f0 r
  have s0: "etl_watermark (c_db (fst (run_cycle sample_rt sample_env seeded_db))) ?t0
      = etl_watermark seeded_db ?t0"
    by simp
  note b = watermark_moves_only_by_commit [of ?u1 sample_rt sample_env "cycle_start seeded_db"
      ?w seeded_db, THEN conjunct1, unfolded t1 start]
  from b m1 f1 r w1 c1
  have s1: "map_option last_fetched_at
      (etl_watermark (c_db (fst (run_cycle sample_rt sample_env seeded_db))) ?t1)
      = Some 1700000001"
    by auto
  note c = watermark_moves_only_by_commit [of _ sample_rt sample_env _ _ seeded_db
      "''public.fc_scenario_run_branch''", THEN conjunct2, THEN conjunct1]
  have "''public.fc_scenario_run_branch'' \<notin> u_table ` set (units sample_rt)"
    by (simp add: units_def)
  with c have s2: "etl_watermark (c_db (fst (run_cycle sample_rt sample_env seeded_db)))
        ''public.fc_scenario_run_branch''
     = etl_watermark seeded_db ''public.fc_scenario_run_branch''"
    by simp
  note d = watermark_moves_only_by_commit [of _ sample_rt sample_env _ _ seeded_db _
      "''timeline''" ?w "[sample_env]" "[sample_env]", THEN conjunct2, THEN conjunct2]
  have "sorted (last_fetched_at ?w
      # map (\<lambda>env. commit_now (env ''timeline'')) ([sample_env] @ [sample_env]))"
    by (simp add: sample_env_def default_epoch_def)
  with d w3 have s3: "\<exists>w1 w2.
      etl_watermark (run_cycles sample_rt [sample_env] seeded_db) ''timeline'' = Some w1
        \<and> etl_watermark (run_cycles sample_rt ([sample_env] @ [sample_env]) seeded_db) ''timeline''
            = Some w2
        \<and> default_epoch \<le> last_fetched_at w1
        \<and> last_fetched_at w1 \<le> last_fetched_at w2"
    by simp
  from s0 s1 s2 s3 show ?thesis by blast
qed

section \<open>Properties of the scheduler\<close>

lemma sleep_step_done:
  "sleep_step s None =
     (s\<lparr>effects := effects s @ [Log DEBUG ''Sleeping before next cycle'', Sleep 30]\<rparr>, Running)"
  by (simp add: sleep_step_def POLL_INTERVAL_SEC_def Let_def)

lemma iteration_running:
  assumes "snd ev = None"
    and "case fst ev of None \<Rightarrow> True | Some e \<Rightarrow> is_Exception e"
  shows "snd (iteration s ev) = Running"
proof (cases "fst ev")
  case None
  with assms show ?thesis
    by (simp add: iteration_def sleep_step_done)
next
  case (Some e)
  with assms have "is_Exception e" by simp
  then have "e \<noteq> KeyboardInterrupt" by auto
  with Some assms show ?thesis
    by (simp add: iteration_def sleep_step_done Let_def)
qed

lemma main_loop_running:
  "list_all (\<lambda>ev. snd ev = None \<and> (case fst ev of None \<Rightarrow> True | Some e \<Rightarrow> is_Exception e)) evs
   \<Longrightarrow> snd (main_loop s evs) = Running"
proof (induction evs arbitrary: s)
  case Nil
  show ?case by simp
next
  case (Cons ev evs)
  then have run: "snd (iteration s ev) = Running"
    by (simp add: iteration_running)
  obtain s1 where it: "iteration s ev = (s1, Running)"
    using run by (cases "iteration s ev") auto
  from Cons have "snd (main_loop s1 evs) = Running"
    by simp
  with it show ?case by simp
qed

text \<open>
  C9. A pass whose \<open>run_cycle()\<close> returns sets \<open>consecutive_failures\<close> to zero; a pass
  whose \<open>run_cycle()\<close> raises an \<open>Exception\<close> adds one to it and logs the failure, and
  logs at \<open>CRITICAL\<close> as well when the new count is 10 or more. Either way the pass then
  sleeps the 30 seconds of \<open>POLL_INTERVAL_SEC\<close> and the loop goes on: over any number of
  such passes it is still running.
\<close>

theorem scheduler_counter_and_sleep:
  "iteration s (None, None) =
     (s\<lparr>consecutive_failures := 0,
        effects := effects s @ [Log DEBUG ''Sleeping before next cycle'', Sleep 30]\<rparr>, Running)
   \<and> (is_Exception e \<longrightarrow>
        iteration s (Some e, None) =
          (s\<lparr>consecutive_failures := consecutive_failures s + 1,
             effects := effects s @ [Log ERROR ''ETL cycle failed'']
               @ (if consecutive_failures s + 1 \<ge> 10
                  then [Log CRITICAL ''consecutive failures''] else [])
               @ [Log DEBUG ''Sleeping before next cycle'', Sleep 30]\<rparr>, Running))
   \<and> (list_all (\<lambda>ev. snd ev = None
                      \<and> (case fst ev of None \<Rightarrow> True | Some e \<Rightarrow> is_Exception e)) evs
        \<longrightarrow> snd (main_loop s evs) = Running)"
proof (intro conjI impI)
  show "iteration s (None, None) =
     (s\<lparr>consecutive_failures := 0,
        effects := effects s @ [Log DEBUG ''Sleeping before next cycle'', Sleep 30]\<rparr>, Running)"
    by (simp add: iteration_def sleep_step_done)
next
  assume "is_Exception e"
  then have "e \<noteq> KeyboardInterrupt" by auto
  with \<open>is_Exception e\<close> show "iteration s (Some e, None) =
          (s\<lparr>consecutive_failures := consecutive_failures s + 1,
             effects := effects s @ [Log ERROR ''ETL cycle failed'']
               @ (if consecutive_failures s + 1 \<ge> 10
                  then [Log CRITICAL ''consecutive failures''] else [])
               @ [Log DEBUG ''Sleeping before next cycle'', Sleep 30]\<rparr>, Running)"
    by (simp add: iteration_def sleep_step_done Let_def MAX_CONSECUTIVE_FAILURES_def)
next
  assume "list_all (\<lambda>ev. snd ev = None
                      \<and> (case fst ev of None \<Rightarrow> True | Some e \<Rightarrow> is_Exception e)) evs"
  then show "snd (main_loop s evs) = Running"
    by (rule main_loop_running)
qed

theorem scheduler_counter_and_sleep_witness:
  "iteration \<lparr>consecutive_failures = 9, effects = []\<rparr> (Some (OtherError ''connection refused''), None) =
     (\<lparr>consecutive_failures = 10,
       effects = [Log ERROR ''ETL cycle failed'', Log CRITICAL ''consecutive failures'',
                  Log DEBUG ''Sleeping before next cycle'', Sleep 30]\<rparr>, Running)
   \<and> snd (main_loop \<lparr>consecutive_failures = 9, effects = []\<rparr>
        [(Some (OtherError ''connection refused''), None), (None, None), (Some ValueError, None)])
     = Running"
proof -
  note t = scheduler_counter_and_sleep [of "\<lparr>consecutive_failures = 9, effects = []\<rparr>"
      "OtherError ''connection refused''"
      "[(Some (OtherError ''connection refused''), None), (None, None), (Some ValueError, None)]"]
  have a: "iteration \<lparr>consecutive_failures = 9, effects = []\<rparr>
             (Some (OtherError ''connection refused''), None) =
     (\<lparr>consecutive_failures = 10,
       effects = [Log ERROR ''ETL cycle failed'', Log CRITICAL ''consecutive failures'',
                  Log DEBUG ''Sleeping before next cycle'', Sleep 30]\<rparr>, Running)"
    using t by simp
  have b: "snd (main_loop \<lparr>consecutive_failures = 9, effects = []\<rparr>
        [(Some (OtherError ''connection refused''), None), (None, None), (Some ValueError, None)])
     = Running"
    using t by (simp del: main_loop.simps)
  from a b show ?thesis by (simp del: main_loop.simps)
qed

text \<open>
  C8. The handler that ends the process with \<open>sys.exit(0)\<close> belongs to the \<open>try\<close> around
  \<open>run_cycle()\<close>; \<open>time.sleep\<close> stands after that statement. A \<open>KeyboardInterrupt\<close>
  raised during the sleep between two cycles is caught by nobody, while one raised
  inside \<open>run_cycle()\<close> ends the process with status 0.
\<close>

theorem interrupt_between_cycles_uncaught:
  "main [(None, Some KeyboardInterrupt)] =
     (\<lparr>consecutive_failures = 0, effects = [Log DEBUG ''Sleeping before next cycle'']\<rparr>,
      Uncaught KeyboardInterrupt)
   \<and> main [(Some KeyboardInterrupt, None)] =
     (\<lparr>consecutive_failures = 0,
       effects = [Log INFO ''ETL stopped by user (KeyboardInterrupt)'']\<rparr>, Exited 0)"
  by (simp add: main_def iteration_def sleep_step_def Let_def)

end
